theory Spec2Isabelle
  imports Main
begin

section \<open>JavaScript strings\<close>

text \<open>
  A JavaScript string is modelled as a HOL \<open>string\<close> holding its UTF-8 bytes: the generator
  reads and writes its files as UTF-8, and every pattern it searches for is ASCII, so a
  search on bytes finds what the search on code units finds.
\<close>

text \<open>\<open>s.startsWith(pat)\<close>\<close>

fun startsWith :: "string \<Rightarrow> string \<Rightarrow> bool" where
  "startsWith s [] = True"
| "startsWith [] (p # ps) = False"
| "startsWith (c # cs) (p # ps) = (c = p \<and> startsWith cs ps)"

text \<open>\<open>s.includes(pat)\<close>\<close>

fun str_includes :: "string \<Rightarrow> string \<Rightarrow> bool" where
  "str_includes [] pat = (pat = [])"
| "str_includes (c # cs) pat = (startsWith (c # cs) pat \<or> str_includes cs pat)"

text \<open>\<open>s.split("-")\<close>: the separator is the single hyphen character.\<close>

fun str_split :: "string \<Rightarrow> char \<Rightarrow> string list" where
  "str_split [] sep = [[]]"
| "str_split (c # cs) sep =
     (if c = sep then [] # str_split cs sep
      else (case str_split cs sep of
              [] \<Rightarrow> [[c]]
            | t # ts \<Rightarrow> (c # t) # ts))"

text \<open>\<open>parts.join(sep)\<close>\<close>

fun str_join :: "string list \<Rightarrow> string \<Rightarrow> string" where
  "str_join [] sep = []"
| "str_join [t] sep = t"
| "str_join (t # u # ts) sep = t @ sep @ str_join (u # ts) sep"

text \<open>
  \<open>s.trim()\<close> removes white space and line terminators from both ends. The table lists the
  UTF-8 encodings of the code points ECMAScript counts as such: U+0009 to U+000D, U+0020,
  U+00A0, U+1680, U+2000 to U+200A, U+2028, U+2029, U+202F, U+205F, U+3000 and U+FEFF.
\<close>

definition whitespace :: "string list" where
  "whitespace =
     [[CHR 0x09], [CHR 0x0A], [CHR 0x0B], [CHR 0x0C], [CHR 0x0D], [CHR 0x20],
      [CHR 0xC2, CHR 0xA0],
      [CHR 0xE1, CHR 0x9A, CHR 0x80],
      [CHR 0xE2, CHR 0x80, CHR 0x80], [CHR 0xE2, CHR 0x80, CHR 0x81],
      [CHR 0xE2, CHR 0x80, CHR 0x82], [CHR 0xE2, CHR 0x80, CHR 0x83],
      [CHR 0xE2, CHR 0x80, CHR 0x84], [CHR 0xE2, CHR 0x80, CHR 0x85],
      [CHR 0xE2, CHR 0x80, CHR 0x86], [CHR 0xE2, CHR 0x80, CHR 0x87],
      [CHR 0xE2, CHR 0x80, CHR 0x88], [CHR 0xE2, CHR 0x80, CHR 0x89],
      [CHR 0xE2, CHR 0x80, CHR 0x8A],
      [CHR 0xE2, CHR 0x80, CHR 0xA8], [CHR 0xE2, CHR 0x80, CHR 0xA9],
      [CHR 0xE2, CHR 0x80, CHR 0xAF],
      [CHR 0xE2, CHR 0x81, CHR 0x9F],
      [CHR 0xE3, CHR 0x80, CHR 0x80],
      [CHR 0xEF, CHR 0xBB, CHR 0xBF]]"

function dropLeading :: "string list \<Rightarrow> string \<Rightarrow> string" where
  "dropLeading toks [] = []"
| "dropLeading toks (c # cs) =
     (case find (\<lambda>t. t \<noteq> [] \<and> startsWith (c # cs) t) toks of
        Some t \<Rightarrow> dropLeading toks (drop (length t) (c # cs))
      | None \<Rightarrow> c # cs)"
  by pat_completeness auto
termination
  by (relation "measure (\<lambda>(toks, s). length s)") (auto simp: find_Some_iff)

definition trimStart :: "string \<Rightarrow> string" where
  "trimStart s = dropLeading whitespace s"

definition trimEnd :: "string \<Rightarrow> string" where
  "trimEnd s = rev (dropLeading (map rev whitespace) (rev s))"

definition trim :: "string \<Rightarrow> string" where
  "trim s = trimEnd (trimStart s)"

text \<open>Decimal rendering of a non-negative integer such as \<open>files.length\<close>.\<close>

fun showNat :: "nat \<Rightarrow> string" where
  "showNat n =
     (if n < 10 then [''0123456789'' ! n]
      else showNat (n div 10) @ [''0123456789'' ! (n mod 10)])"

declare showNat.simps [simp del]

section \<open>Body extraction and sanitization\<close>

text \<open>
  \<open>jsx.match(/<svg[^>]*>([\s\S]*?)<\/svg>/)?.[1]\<close>. \<open>beforeFirst pat s\<close> is the text of \<open>s\<close>
  before the first occurrence of \<open>pat\<close> (the lazy group followed by the closing tag);
  \<open>matchSvgAt\<close> tries the expression at the start of its argument, \<open>matchSvg\<close> at each
  position from the left, as the regular-expression search does.
\<close>

fun beforeFirst :: "string \<Rightarrow> string \<Rightarrow> string option" where
  "beforeFirst pat [] = (if pat = [] then Some [] else None)"
| "beforeFirst pat (c # cs) =
     (if startsWith (c # cs) pat then Some []
      else map_option ((#) c) (beforeFirst pat cs))"

definition matchSvgAt :: "string \<Rightarrow> string option" where
  \<open>matchSvgAt s =
     (if startsWith s ''<svg''
      then (case dropWhile (\<lambda>c. c \<noteq> CHR ''>'') (drop 4 s) of
              [] \<Rightarrow> None
            | gt # body \<Rightarrow> beforeFirst ''</svg>'' body)
      else None)\<close>

fun matchSvg :: "string \<Rightarrow> string option" where
  "matchSvg [] = None"
| "matchSvg (c # cs) =
     (case matchSvgAt (c # cs) of
        Some body \<Rightarrow> Some body
      | None \<Rightarrow> matchSvg cs)"

text \<open>
  \<open>s.replaceAll(/fill="[^"]*"/g, "")\<close> and the same for \<open>stroke\<close>. \<open>matchAttr a s\<close> tries
  \<open>a="[^"]*"\<close> at the start of \<open>s\<close> and returns what follows the match; \<open>removeAttr\<close>
  scans from the left, drops each match and goes on after it.
\<close>

definition matchAttr :: "string \<Rightarrow> string \<Rightarrow> string option" where
  \<open>matchAttr a s =
     (let lit = a @ ''="'' in
      if startsWith s lit
      then (case dropWhile (\<lambda>c. c \<noteq> CHR ''"'') (drop (length lit) s) of
              [] \<Rightarrow> None
            | q # rest \<Rightarrow> Some rest)
      else None)\<close>

function removeAttr :: "string \<Rightarrow> string \<Rightarrow> string" where
  "removeAttr a [] = []"
| "removeAttr a (c # cs) =
     (case matchAttr a (c # cs) of
        Some rest \<Rightarrow> removeAttr a rest
      | None \<Rightarrow> c # removeAttr a cs)"
  by pat_completeness auto
termination
proof (relation "measure (\<lambda>(a, s). length s)")
  show "wf (measure (\<lambda>(a, s). length s))" by simp
next
  fix a :: string and c :: char and cs rest :: string
  assume m: "matchAttr a (c # cs) = Some rest"
  let ?v = "drop (length (a @ [CHR ''='', CHR 0x22])) (c # cs)"
  from m obtain q where q: "dropWhile (\<lambda>c. c \<noteq> CHR 0x22) ?v = q # rest"
    by (auto simp: matchAttr_def Let_def split: if_splits list.splits)
  have "length (dropWhile (\<lambda>c. c \<noteq> CHR 0x22) ?v) \<le> length ?v"
    by (rule length_dropWhile_le)
  with q have "length rest < length ?v" by simp
  then show "((a, rest), (a, c # cs)) \<in> measure (\<lambda>(a, s). length s)" by simp
next
  fix a :: string and c :: char and cs :: string
  show "((a, cs), (a, c # cs)) \<in> measure (\<lambda>(a, s). length s)" by simp
qed

text \<open>
  \<open>rawBody\<close> is \<open>jsx.match(...)?.[1] ?? ""\<close>, \<open>stripColours\<close> the two \<open>replaceAll\<close> calls of
  lines 122 and 123 (first \<open>fill\<close>, then \<open>stroke\<close>). The body embedded in a component is
  trimmed where it is handed to the template (line 132): \<open>sanitize\<close> is that composition.
\<close>

definition rawBody :: "string \<Rightarrow> string" where
  "rawBody jsx = (case matchSvg jsx of Some body \<Rightarrow> body | None \<Rightarrow> [])"

definition stripColours :: "string \<Rightarrow> string" where
  "stripColours raw = removeAttr ''stroke'' (removeAttr ''fill'' raw)"

definition sanitize :: "string \<Rightarrow> string" where
  "sanitize raw = trim (stripColours raw)"

section \<open>The component template\<close>

text \<open>
  The argument of \<open>buildComponent\<close>. The two defaults are JavaScript numbers; the template only
  prints them, so their type is a parameter \<open>'n\<close> and their printing a function \<open>numStr\<close>.
  The fields \<open>defaultSize\<close>, \<open>defaultStrokeWidth\<close> and \<open>filled\<close> carry the prefix \<open>data\<close> here,
  since the options record below has fields of the same names.
\<close>

record 'n Data =
  componentName :: string
  svgBody :: string
  dataDefaultSize :: 'n
  dataDefaultStrokeWidth :: 'n
  fill :: string
  stroke :: string
  dataFilled :: bool

definition buildComponent :: "('n \<Rightarrow> string) \<Rightarrow> 'n Data \<Rightarrow> string" where
  \<open>buildComponent numStr data =
    (let strokeWidthValue = (if dataFilled data then ''undefined as any'' else ''strokeWidth'') in
     ''import * as React from "react";\<newline>'' @
     ''\<newline>'' @
     ''export interface '' @ componentName data @ ''Props extends React.SVGProps<SVGSVGElement> {\<newline>'' @
     ''  title?: string;\<newline>'' @
     ''  titleId?: string;\<newline>'' @
     ''  size?: number;\<newline>'' @
     ''  strokeWidth?: number;\<newline>'' @
     ''}\<newline>'' @
     ''\<newline>'' @
     ''const '' @ componentName data @ '' = React.memo(React.forwardRef<SVGSVGElement, '' @ componentName data @ ''Props>(\<newline>'' @
     ''  ({ title, titleId, size = '' @ numStr (dataDefaultSize data) @ '', strokeWidth = '' @ numStr (dataDefaultStrokeWidth data) @ '', ...props }, ref) => {\<newline>'' @
     ''    return (\<newline>'' @
     ''      <svg\<newline>'' @
     ''        ref={ref}\<newline>'' @
     ''        width={size}\<newline>'' @
     ''        height={size}\<newline>'' @
     ''        aria-hidden={title ? undefined : "true"}\<newline>'' @
     ''        aria-labelledby={title ? titleId : undefined}\<newline>'' @
     ''        role={title ? "img" : "presentation"}\<newline>'' @
     ''        viewBox="0 0 24 24"\<newline>'' @
     ''        fill="'' @ fill data @ ''"\<newline>'' @
     ''        stroke="'' @ stroke data @ ''"\<newline>'' @
     ''        strokeWidth={'' @ strokeWidthValue @ ''}\<newline>'' @
     ''        strokeLinecap="round"\<newline>'' @
     ''        strokeLinejoin="round"\<newline>'' @
     ''        {...props}\<newline>'' @
     ''      >\<newline>'' @
     ''        {title ? <title id={titleId}>{title}</title> : null}\<newline>'' @
     ''        '' @ svgBody data @ ''\<newline>'' @
     ''      </svg>\<newline>'' @
     ''    );\<newline>'' @
     ''  }\<newline>'' @
     ''));\<newline>'' @
     ''\<newline>'' @
     componentName data @ ''.displayName = "'' @ componentName data @ ''";\<newline>'' @
     ''export default '' @ componentName data @ '';\<newline>'')\<close>

section \<open>The manifest and its two artifacts\<close>

record entry =
  name :: string
  "file" :: string
  tags :: "string list"

text \<open>
  \<open>INDEX_TEMPLATE\<close> compiled by Handlebars and applied to \<open>{ entries }\<close>: the block body once
  per entry, in order. A \<open>{{...}}\<close> expression is HTML-escaped by Handlebars
  (\<open>escapeExpression\<close>).
\<close>

definition escapeChar :: "char \<Rightarrow> string" where
  \<open>escapeChar c =
     (if c = CHR ''&'' then ''&amp;''
      else if c = CHR ''<'' then ''&lt;''
      else if c = CHR ''>'' then ''&gt;''
      else if c = CHR ''"'' then ''&quot;''
      else if c = CHR 0x27 then ''&#x27;''
      else if c = CHR ''`'' then ''&#x60;''
      else if c = CHR ''='' then ''&#x3D;''
      else [c])\<close>

definition escapeExpression :: "string \<Rightarrow> string" where
  "escapeExpression s = concat (map escapeChar s)"

definition indexTpl :: "entry list \<Rightarrow> string" where
  \<open>indexTpl entries =
     concat (map (\<lambda>this. ''export { default as '' @ escapeExpression (name this) @
                          '' } from "./'' @ escapeExpression (file this) @ ''";\<newline>'') entries)\<close>

text \<open>
  \<open>JSON.stringify({ count: entries.length, icons: entries }, null, 2)\<close>: string quoting as
  \<open>JSON.stringify\<close> does it, arrays and objects broken over lines with two more spaces at
  each level, an empty array printed as \<open>[]\<close>.
\<close>

definition hexDigit :: "nat \<Rightarrow> char" where
  "hexDigit n = ''0123456789abcdef'' ! n"

definition jsonEscapeChar :: "char \<Rightarrow> string" where
  \<open>jsonEscapeChar c =
     (if c = CHR ''"'' then [CHR 0x5C, CHR ''"'']
      else if c = CHR 0x5C then [CHR 0x5C, CHR 0x5C]
      else if c = CHR 0x08 then [CHR 0x5C, CHR ''b'']
      else if c = CHR 0x0C then [CHR 0x5C, CHR ''f'']
      else if c = CHR 0x0A then [CHR 0x5C, CHR ''n'']
      else if c = CHR 0x0D then [CHR 0x5C, CHR ''r'']
      else if c = CHR 0x09 then [CHR 0x5C, CHR ''t'']
      else if (of_char c :: nat) < 0x20
      then [CHR 0x5C, CHR ''u'', CHR ''0'', CHR ''0'',
            hexDigit (of_char c div 16), hexDigit (of_char c mod 16)]
      else [c])\<close>

definition jsonString :: "string \<Rightarrow> string" where
  \<open>jsonString s = ''"'' @ concat (map jsonEscapeChar s) @ ''"''\<close>

definition jsonArray :: "nat \<Rightarrow> string list \<Rightarrow> string" where
  \<open>jsonArray indent items =
     (if items = [] then ''[]''
      else ''['' @ ''\<newline>'' @
           str_join (map (\<lambda>i. replicate (indent + 2) CHR '' '' @ i) items) ('','' @ ''\<newline>'') @
           ''\<newline>'' @ replicate indent CHR '' '' @ '']'')\<close>

definition jsonEntry :: "entry \<Rightarrow> string" where
  \<open>jsonEntry e =
     ''{'' @ ''\<newline>'' @
     ''      "name": '' @ jsonString (name e) @ '','' @ ''\<newline>'' @
     ''      "file": '' @ jsonString (file e) @ '','' @ ''\<newline>'' @
     ''      "tags": '' @ jsonArray 6 (map jsonString (tags e)) @ ''\<newline>'' @
     ''    }''\<close>

record metadata =
  count :: nat
  icons :: "entry list"

definition stringifyMetadata :: "metadata \<Rightarrow> string" where
  \<open>stringifyMetadata doc =
     ''{'' @ ''\<newline>'' @
     ''  "count": '' @ showNat (count doc) @ '','' @ ''\<newline>'' @
     ''  "icons": '' @ jsonArray 2 (map jsonEntry (icons doc)) @ ''\<newline>'' @
     ''}''\<close>

section \<open>Collaborators and effects\<close>

text \<open>
  Whatever a collaborator throws, and the error \<open>generate\<close> throws itself, is a JavaScript
  \<open>Error\<close> with its message.
\<close>

datatype error = Error string

text \<open>
  The collaborators \<open>generate\<close> calls, as parameters: the file system (\<open>fs.mkdir\<close> with
  \<open>recursive\<close>, \<open>fs.readFile\<close>, \<open>fs.writeFile\<close>; \<open>Some e\<close> or \<open>Inl e\<close> is a rejection), the
  file matcher \<open>globby("**/*.svg", { cwd })\<close>, \<open>optimize\<close> of svgo and \<open>transform\<close> of
  @svgr/core with the fixed configurations of lines 96 to 118, \<open>prettier.format\<close> with the
  parser \<open>babel-ts\<close>, \<open>pascalCase\<close> of change-case, \<open>path.basename(rel, ".svg")\<close>,
  \<open>path.join\<close>, and the printing of a number inside a template literal.
\<close>

record 'n env =
  mkdir :: "string \<Rightarrow> error option"
  globby :: "string \<Rightarrow> error + string list"
  readFile :: "string \<Rightarrow> error + string"
  writeFile :: "string \<Rightarrow> string \<Rightarrow> error option"
  optimize :: "string \<Rightarrow> error + string"
  transform :: "string \<Rightarrow> error + string"
  prettierFormat :: "string \<Rightarrow> error + string"
  pascalCase :: "string \<Rightarrow> string"
  basename :: "string \<Rightarrow> string"
  pathJoin :: "string \<Rightarrow> string \<Rightarrow> string"
  numberToString :: "'n \<Rightarrow> string"

record 'n Opts =
  srcDir :: string
  outDir :: string
  prefix :: "string option"
  defaultSize :: 'n
  defaultStrokeWidth :: 'n
  filled :: bool

text \<open>
  What a run leaves behind: the directories it asked \<open>fs.mkdir\<close> for, the files it wrote
  (path and content, one item per \<open>fs.writeFile\<close> call, in order) and its console lines.
\<close>

datatype console_line = Log string | Warn string

record world =
  dirs :: "string list"
  written :: "(string \<times> string) list"
  console :: "console_line list"

definition consoleLog :: "world \<Rightarrow> string \<Rightarrow> world" where
  "consoleLog w msg = w\<lparr>console := console w @ [Log msg]\<rparr>"

definition consoleWarn :: "world \<Rightarrow> string \<Rightarrow> world" where
  "consoleWarn w msg = w\<lparr>console := console w @ [Warn msg]\<rparr>"

definition doWrite :: "world \<Rightarrow> string \<Rightarrow> string \<Rightarrow> world" where
  "doWrite w path content = w\<lparr>written := written w @ [(path, content)]\<rparr>"

text \<open>The non-ASCII symbols of the console messages, as UTF-8.\<close>

definition packageSign :: string where
  "packageSign = [CHR 0xF0, CHR 0x9F, CHR 0x93, CHR 0xA6]"

definition warningSign :: string where
  "warningSign = [CHR 0xE2, CHR 0x9A, CHR 0xA0, CHR 0xEF, CHR 0xB8, CHR 0x8F]"

definition checkMark :: string where
  "checkMark = [CHR 0xE2, CHR 0x9C, CHR 0x93]"

definition rightArrow :: string where
  "rightArrow = [CHR 0xE2, CHR 0x86, CHR 0x92]"

definition pageSign :: string where
  "pageSign = [CHR 0xF0, CHR 0x9F, CHR 0x93, CHR 0x84]"

section \<open>generate\<close>

text \<open>The object handed to \<open>buildComponent\<close> at lines 130 to 138.\<close>

definition componentData :: "'n Opts \<Rightarrow> string \<Rightarrow> string \<Rightarrow> 'n Data" where
  "componentData opts compName inner =
     \<lparr>componentName = compName,
      svgBody = trim inner,
      dataDefaultSize = defaultSize opts,
      dataDefaultStrokeWidth = defaultStrokeWidth opts,
      fill = (if filled opts then ''currentColor'' else ''none''),
      stroke = (if filled opts then ''none'' else ''currentColor''),
      dataFilled = filled opts\<rparr>"

text \<open>
  The \<open>for\<close> loop of lines 86 to 152 over the files still to process, with the \<open>entries\<close>
  accumulated so far. A rejection or exception of a collaborator leaves the loop (and
  \<open>generate\<close>) with that error; the world keeps what was done before.
\<close>

fun processFiles ::
  "'n env \<Rightarrow> 'n Opts \<Rightarrow> string list \<Rightarrow> entry list \<Rightarrow> world \<Rightarrow> (error + entry list) \<times> world"
where
  "processFiles env opts [] entries w = (Inr entries, w)"
| "processFiles env opts (rel # rest) entries w =
    (let abs = pathJoin env (srcDir opts) rel in
     case readFile env abs of
       Inl e \<Rightarrow> (Inl e, w)
     | Inr svgRaw \<Rightarrow>
         if \<not> str_includes svgRaw ''<svg''
         then processFiles env opts rest entries
                (consoleWarn w (warningSign @ ''  Skipping invalid SVG: '' @ rel))
         else
           (case optimize env svgRaw of
              Inl e \<Rightarrow> (Inl e, w)
            | Inr svgOptimized \<Rightarrow>
               (case transform env svgOptimized of
                  Inl e \<Rightarrow> (Inl e, w)
                | Inr jsx \<Rightarrow>
                   (let inner = stripColours (rawBody jsx);
                        base = basename env rel;
                        compName = pascalCase env ((case prefix opts of Some p \<Rightarrow> p | None \<Rightarrow> []) @ base);
                        fileName = pascalCase env base;
                        tsx = buildComponent (numberToString env) (componentData opts compName inner)
                    in case prettierFormat env tsx of
                         Inl e \<Rightarrow> (Inl e, w)
                       | Inr pretty \<Rightarrow>
                          (let outPath = pathJoin env (outDir opts) (fileName @ ''.tsx'') in
                           case writeFile env outPath pretty of
                             Some e \<Rightarrow> (Inl e, w)
                           | None \<Rightarrow>
                               processFiles env opts rest
                                 (entries @ [\<lparr>name = compName, file = fileName,
                                              tags = str_split base CHR ''-''\<rparr>])
                                 (consoleLog (doWrite w outPath pretty)
                                    (''  '' @ checkMark @ '' '' @ base @ '' '' @ rightArrow @
                                     '' '' @ compName)))))))"

definition generate :: "'n env \<Rightarrow> 'n Opts \<Rightarrow> world \<Rightarrow> (error + unit) \<times> world" where
  "generate env opts w =
    (case mkdir env (outDir opts) of
       Some e \<Rightarrow> (Inl e, w)
     | None \<Rightarrow>
        (let w1 = w\<lparr>dirs := dirs w @ [outDir opts]\<rparr> in
         case globby env (srcDir opts) of
           Inl e \<Rightarrow> (Inl e, w1)
         | Inr files \<Rightarrow>
            if length files = 0
            then (Inl (Error (''No SVG files found in '' @ srcDir opts)), w1)
            else
              (let w2 = consoleLog w1 (packageSign @ '' Found '' @ showNat (length files) @
                                       '' SVG file(s)'')
               in case processFiles env opts files [] w2 of
                    (Inl e, w3) \<Rightarrow> (Inl e, w3)
                  | (Inr entries, w3) \<Rightarrow>
                     (case prettierFormat env (indexTpl entries) of
                        Inl e \<Rightarrow> (Inl e, w3)
                      | Inr indexCode \<Rightarrow>
                         (let indexPath = pathJoin env (outDir opts) ''index.ts'' in
                          case writeFile env indexPath indexCode of
                            Some e \<Rightarrow> (Inl e, w3)
                          | None \<Rightarrow>
                             (let w4 = doWrite w3 indexPath indexCode;
                                  metaPath = pathJoin env (outDir opts) ''metadata.json'';
                                  metaText = stringifyMetadata
                                               \<lparr>count = length entries, icons = entries\<rparr>
                              in case writeFile env metaPath metaText of
                                   Some e \<Rightarrow> (Inl e, w4)
                                 | None \<Rightarrow>
                                    (Inr (),
                                     consoleLog (doWrite w4 metaPath metaText)
                                       (''\<newline>'' @ pageSign @ '' Generated index.ts with '' @
                                        showNat (length entries) @ '' exports''))))))))"

section \<open>Notions used to state the properties\<close>

text \<open>
  A discovered file is valid when it can be read and its content contains the vector-root
  marker \<open><svg\<close> (the test of line 90).
\<close>

definition hasMarker :: "'n env \<Rightarrow> 'n Opts \<Rightarrow> string \<Rightarrow> bool" where
  "hasMarker env opts rel =
     (case readFile env (pathJoin env (srcDir opts) rel) of
        Inl e \<Rightarrow> False
      | Inr svgRaw \<Rightarrow> str_includes svgRaw ''<svg'')"

definition validFiles :: "'n env \<Rightarrow> 'n Opts \<Rightarrow> string list \<Rightarrow> string list" where
  "validFiles env opts files = filter (hasMarker env opts) files"

text \<open>The prefix as line 126 reads it: \<open>opts.prefix ?? ""\<close>.\<close>

definition prefixOrEmpty :: "'n Opts \<Rightarrow> string" where
  "prefixOrEmpty opts = (case prefix opts of Some p \<Rightarrow> p | None \<Rightarrow> [])"

text \<open>The manifest entry of a valid file (lines 125 to 127 and 145 to 149).\<close>

definition entryOf :: "'n env \<Rightarrow> 'n Opts \<Rightarrow> string \<Rightarrow> entry" where
  "entryOf env opts rel =
     \<lparr>name = pascalCase env (prefixOrEmpty opts @ basename env rel),
      file = pascalCase env (basename env rel),
      tags = str_split (basename env rel) CHR ''-''\<rparr>"

text \<open>The path a component file is written to (line 142).\<close>

definition componentPath :: "'n env \<Rightarrow> 'n Opts \<Rightarrow> string \<Rightarrow> string" where
  "componentPath env opts rel =
     pathJoin env (outDir opts) (pascalCase env (basename env rel) @ ''.tsx'')"

text \<open>
  The text built for a file and handed to the formatter (lines 96 to 138): the template
  applied to the component identifier and to the body extracted from what the optimizer
  and the transformer return for the file's content.
\<close>

definition componentText :: "'n env \<Rightarrow> 'n Opts \<Rightarrow> string \<Rightarrow> string option" where
  "componentText env opts rel =
     (case readFile env (pathJoin env (srcDir opts) rel) of
        Inl e \<Rightarrow> None
      | Inr svgRaw \<Rightarrow>
          (case optimize env svgRaw of
             Inl e \<Rightarrow> None
           | Inr svgOptimized \<Rightarrow>
               (case transform env svgOptimized of
                  Inl e \<Rightarrow> None
                | Inr jsx \<Rightarrow>
                    Some (buildComponent (numberToString env)
                            (componentData opts
                               (pascalCase env (prefixOrEmpty opts @ basename env rel))
                               (stripColours (rawBody jsx)))))))"

text \<open>The files a run has written: what it appended to the world it started from.\<close>

definition newWrites :: "world \<Rightarrow> world \<Rightarrow> (string \<times> string) list" where
  "newWrites w w' = drop (length (written w)) (written w')"

text \<open>
  \<open>extend w d\<close> is the world \<open>w\<close> followed by the effects recorded in \<open>d\<close>.
\<close>

definition extend :: "world \<Rightarrow> world \<Rightarrow> world" where
  "extend w d =
     \<lparr>dirs = dirs w @ dirs d, written = written w @ written d,
      console = console w @ console d\<rparr>"

text \<open>
  The world in which the loop starts: the output directory asked for, the number of
  discovered files reported (lines 74 and 82).
\<close>

definition loopStart :: "'n Opts \<Rightarrow> string list \<Rightarrow> world \<Rightarrow> world" where
  "loopStart opts files w =
     consoleLog (w\<lparr>dirs := dirs w @ [outDir opts]\<rparr>)
       (packageSign @ '' Found '' @ showNat (length files) @ '' SVG file(s)'')"

text \<open>
  \<open>hasAttr a s\<close>: the text \<open>s\<close> holds an occurrence of \<open>a="..."\<close>, that is, the regular
  expression of line 122 or 123 matches at some position.
\<close>

fun hasAttr :: "string \<Rightarrow> string \<Rightarrow> bool" where
  "hasAttr a [] = False"
| "hasAttr a (c # cs) =
     (case matchAttr a (c # cs) of
        Some rest \<Rightarrow> True
      | None \<Rightarrow> hasAttr a cs)"

text \<open>
  The opening tag of the root element as the template writes it (lines 43 to 57), for given
  values of \<open>fill\<close> and \<open>stroke\<close> and a given expression bound to \<open>strokeWidth\<close>.
\<close>

definition rootTag :: "string \<Rightarrow> string \<Rightarrow> string \<Rightarrow> string" where
  \<open>rootTag fillValue strokeValue widthExpr =
     ''<svg\<newline>'' @
     ''        ref={ref}\<newline>'' @
     ''        width={size}\<newline>'' @
     ''        height={size}\<newline>'' @
     ''        aria-hidden={title ? undefined : "true"}\<newline>'' @
     ''        aria-labelledby={title ? titleId : undefined}\<newline>'' @
     ''        role={title ? "img" : "presentation"}\<newline>'' @
     ''        viewBox="0 0 24 24"\<newline>'' @
     ''        fill="'' @ fillValue @ ''"\<newline>'' @
     ''        stroke="'' @ strokeValue @ ''"\<newline>'' @
     ''        strokeWidth={'' @ widthExpr @ ''}\<newline>'' @
     ''        strokeLinecap="round"\<newline>'' @
     ''        strokeLinejoin="round"\<newline>'' @
     ''        {...props}\<newline>'' @
     ''      >''\<close>

text \<open>A token counts as lowercase when it holds no ASCII capital letter.\<close>

definition lowercaseToken :: "string \<Rightarrow> bool" where
  "lowercaseToken t = list_all (\<lambda>c. c \<notin> set ''ABCDEFGHIJKLMNOPQRSTUVWXYZ'') t"

section \<open>Sample collaborators\<close>

text \<open>
  A small concrete environment on which the model is evaluated: source files given as a
  table from relative path to content under the directory \<open>icons-src\<close>, adapters that hand
  their input back (as the mocks of the repository's tests do), and simple versions of the
  path and case functions that agree with the real ones on plain kebab-case file names.
\<close>

definition sampleBasename :: "string \<Rightarrow> string" where
  "sampleBasename rel =
     (let seg = rev (takeWhile (\<lambda>c. c \<noteq> CHR ''/'') (rev rel)) in
      if 4 < length seg \<and> drop (length seg - 4) seg = ''.svg''
      then take (length seg - 4) seg else seg)"

definition capitalize :: "string \<Rightarrow> string" where
  "capitalize t =
     (case t of
        [] \<Rightarrow> []
      | c # cs \<Rightarrow>
          (case map_of (zip ''abcdefghijklmnopqrstuvwxyz'' ''ABCDEFGHIJKLMNOPQRSTUVWXYZ'') c of
             Some u \<Rightarrow> u # cs
           | None \<Rightarrow> c # cs))"

definition samplePascalCase :: "string \<Rightarrow> string" where
  "samplePascalCase s = concat (map capitalize (str_split s CHR ''-''))"

definition sampleEnv :: "(string \<times> string) list \<Rightarrow> nat env" where
  "sampleEnv src =
     \<lparr>mkdir = (\<lambda>dir. None),
      globby = (\<lambda>cwd. Inr (map fst src)),
      readFile = (\<lambda>path.
        case map_of (map (\<lambda>(rel, content). (''icons-src/'' @ rel, content)) src) path of
          Some content \<Rightarrow> Inr content
        | None \<Rightarrow> Inl (Error ''ENOENT'')),
      writeFile = (\<lambda>path content. None),
      optimize = Inr,
      transform = Inr,
      prettierFormat = Inr,
      pascalCase = samplePascalCase,
      basename = sampleBasename,
      pathJoin = (\<lambda>a b. a @ ''/'' @ b),
      numberToString = showNat\<rparr>"

definition sampleOpts :: "nat Opts" where
  "sampleOpts =
     \<lparr>srcDir = ''icons-src'', outDir = ''icons'', prefix = None,
      defaultSize = 24, defaultStrokeWidth = 2, filled = False\<rparr>"

text \<open>
  The sample environment with an optimizer that rejects one document, as svgo does on
  markup it cannot parse.
\<close>

definition brokenSources :: "(string \<times> string) list" where
  \<open>brokenSources =
     [(''broken.svg'', ''<svg><path d="M0 0"</svg>''),
      (''ok.svg'', ''<svg></svg>'')]\<close>

definition strictEnv :: "(string \<times> string) list \<Rightarrow> nat env" where
  \<open>strictEnv src =
     (sampleEnv src)
       \<lparr>optimize := (\<lambda>s. if s = ''<svg><path d="M0 0"</svg>''
                          then Inl (Error ''SvgoParserError'') else Inr s)\<rparr>\<close>

definition emptyWorld :: world where
  "emptyWorld = \<lparr>dirs = [], written = [], console = []\<rparr>"

definition sampleSources :: "(string \<times> string) list" where
  \<open>sampleSources =
     [(''arrow-left.svg'', ''<svg viewBox="0 0 24 24"><path fill="#000" d="M1 1"/></svg>''),
      (''notes.svg'', ''plain text''),
      (''sub/a--b.svg'', ''<svg></svg>'')]\<close>

section \<open>Auxiliary facts\<close>

lemma str_split_nonempty: "str_split s sep \<noteq> []"
  by (induction s) (auto split: list.splits)

lemma str_join_Cons_head: "str_join ((c # t) # ts) sep = c # str_join (t # ts) sep"
  by (cases ts) simp_all

lemma str_join_split: "str_join (str_split s sep) [sep] = s"
proof (induction s)
  case Nil
  show ?case by simp
next
  case (Cons c cs)
  obtain t ts where ts: "str_split cs sep = t # ts"
    using str_split_nonempty [of cs sep] by (cases "str_split cs sep") auto
  show ?case
  proof (cases "c = sep")
    case True
    with Cons ts show ?thesis by simp
  next
    case False
    with Cons ts show ?thesis by (simp add: str_join_Cons_head)
  qed
qed

text \<open>
  What a completed loop has done: one entry and one written file for each valid file, in
  enumeration order, and nothing for the others.
\<close>

lemma processFiles_ok:
  "processFiles env opts files acc w = (Inr entries, w') \<Longrightarrow>
     entries = acc @ map (entryOf env opts) (validFiles env opts files) \<and>
     map fst (written w') =
       map fst (written w) @ map (componentPath env opts) (validFiles env opts files) \<and>
     dirs w' = dirs w"
proof (induction files arbitrary: acc w)
  case Nil
  then show ?case by (simp add: validFiles_def)
next
  case (Cons rel rest)
  show ?case
  proof (cases "hasMarker env opts rel")
    case False
    with Cons.prems have
      "processFiles env opts rest acc
         (consoleWarn w (warningSign @ ''  Skipping invalid SVG: '' @ rel)) = (Inr entries, w')"
      by (auto simp: hasMarker_def Let_def split: sum.splits if_splits)
    from Cons.IH [OF this] False show ?thesis
      by (simp add: validFiles_def consoleWarn_def)
  next
    case True
    with Cons.prems obtain pretty where
      "processFiles env opts rest (acc @ [entryOf env opts rel])
         (consoleLog (doWrite w (componentPath env opts rel) pretty)
            (''  '' @ checkMark @ '' '' @ basename env rel @ '' '' @ rightArrow @ '' '' @
             pascalCase env (prefixOrEmpty opts @ basename env rel))) = (Inr entries, w')"
      by (auto simp: hasMarker_def Let_def entryOf_def componentPath_def prefixOrEmpty_def
               split: sum.splits if_splits option.splits)
    from Cons.IH [OF this] True show ?thesis
      by (simp add: validFiles_def consoleLog_def doWrite_def)
  qed
qed

lemma extend_empty: "extend w emptyWorld = w"
  by (simp add: extend_def emptyWorld_def)

lemma extend_console:
  "consoleWarn (extend w d) m = extend w (consoleWarn d m)"
  "consoleLog (extend w d) m = extend w (consoleLog d m)"
  "doWrite (extend w d) p c = extend w (doWrite d p c)"
  by (simp_all add: extend_def consoleWarn_def consoleLog_def doWrite_def)

lemma processFiles_extend:
  "processFiles env opts files acc (extend w d) =
     (case processFiles env opts files acc d of (r, d') \<Rightarrow> (r, extend w d'))"
proof (induction files arbitrary: acc d)
  case Nil
  show ?case by simp
next
  case (Cons rel rest)
  show ?case
    by (simp add: Let_def extend_console Cons.IH split: sum.splits option.splits)
qed

lemma generate_extend:
  "generate env opts (extend w d) =
     (case generate env opts d of (r, d') \<Rightarrow> (r, extend w d'))"
proof -
  have dirs: "\<And>x. extend w d\<lparr>dirs := dirs (extend w d) @ [x]\<rparr> = extend w (d\<lparr>dirs := dirs d @ [x]\<rparr>)"
    by (simp add: extend_def)
  show ?thesis
    unfolding generate_def
    by (simp add: Let_def dirs extend_console processFiles_extend
             split: sum.splits option.splits prod.splits)
qed

lemma processFiles_readFile_cong:
  assumes "\<forall>rel \<in> set files. r2 (pathJoin env (srcDir opts) rel) =
             readFile env (pathJoin env (srcDir opts) rel)"
  shows "processFiles (env\<lparr>readFile := r2\<rparr>) opts files acc w =
           processFiles env opts files acc w"
  using assms
proof (induction files arbitrary: acc w)
  case Nil
  show ?case by simp
next
  case (Cons rel rest)
  then show ?case
    by (simp add: Let_def split: sum.splits option.splits)
qed

lemma processFiles_globby_irrelevant:
  "processFiles (env\<lparr>globby := g2\<rparr>) opts files acc w = processFiles env opts files acc w"
  by (induction files arbitrary: acc w) (simp_all add: Let_def split: sum.splits option.splits)

lemma processFiles_succeeds:
  assumes "\<forall>rel \<in> set files. \<exists>c. readFile env (pathJoin env (srcDir opts) rel) = Inr c"
    and "\<forall>s. \<exists>r. optimize env s = Inr r"
    and "\<forall>s. \<exists>r. transform env s = Inr r"
    and "\<forall>s. \<exists>r. prettierFormat env s = Inr r"
    and "\<forall>p c. writeFile env p c = None"
  shows "\<exists>entries w'. processFiles env opts files acc w = (Inr entries, w')"
  using assms(1)
proof (induction files arbitrary: acc w)
  case Nil
  show ?case by simp
next
  case (Cons rel rest)
  from Cons.prems obtain c where c: "readFile env (pathJoin env (srcDir opts) rel) = Inr c"
    by auto
  obtain o1 where o1: "optimize env c = Inr o1" using assms(2) by blast
  obtain t1 where t1: "transform env o1 = Inr t1" using assms(3) by blast
  from Cons.prems have rest: "\<forall>rel \<in> set rest. \<exists>c. readFile env (pathJoin env (srcDir opts) rel) = Inr c"
    by simp
  show ?case
  proof (cases "str_includes c ''<svg''")
    case False
    with c Cons.IH [OF rest] show ?thesis by simp
  next
    case True
    obtain pr where pr: "prettierFormat env
        (buildComponent (numberToString env)
          (componentData opts
            (pascalCase env ((case prefix opts of Some p \<Rightarrow> p | None \<Rightarrow> []) @ basename env rel))
            (stripColours (rawBody t1)))) = Inr pr"
      using assms(4) by blast
    from True c o1 t1 pr assms(5) Cons.IH [OF rest] show ?thesis
      by (simp add: Let_def)
  qed
qed

lemma startsWith_append: "startsWith (pat @ q) pat"
  by (induction pat) simp_all

lemma str_includes_prefix: "str_includes (pat @ q) pat"
proof (cases "pat @ q")
  case Nil
  then show ?thesis by simp
next
  case (Cons c cs)
  have "startsWith (pat @ q) pat" by (rule startsWith_append)
  with Cons show ?thesis by simp
qed

lemma str_includes_append: "str_includes (p @ pat @ q) pat"
proof (induction p)
  case Nil
  show ?case using str_includes_prefix by simp
next
  case (Cons c cs)
  then show ?case by simp
qed

lemma processFiles_append:
  "processFiles env opts (xs @ ys) acc w =
     (case processFiles env opts xs acc w of
        (Inl e, w1) \<Rightarrow> (Inl e, w1)
      | (Inr es, w1) \<Rightarrow> processFiles env opts ys es w1)"
proof (induction xs arbitrary: acc w)
  case Nil
  show ?case by simp
next
  case (Cons rel rest)
  show ?case
    by (simp add: Let_def Cons.IH split: sum.splits option.splits)
qed

lemma component_split:
  \<open>buildComponent numStr (componentData opts compName inner) =
    (''import * as React from "react";\<newline>'' @
     ''\<newline>'' @
     ''export interface '' @ compName @ ''Props extends React.SVGProps<SVGSVGElement> {\<newline>'' @
     ''  title?: string;\<newline>'' @
     ''  titleId?: string;\<newline>'' @
     ''  size?: number;\<newline>'' @
     ''  strokeWidth?: number;\<newline>'' @
     ''}\<newline>'' @
     ''\<newline>'' @
     ''const '' @ compName @ '' = React.memo(React.forwardRef<SVGSVGElement, '' @ compName @ ''Props>(\<newline>'' @
     ''  ({ title, titleId, size = '' @ numStr (defaultSize opts) @ '', strokeWidth = '' @ numStr (defaultStrokeWidth opts) @ '', ...props }, ref) => {\<newline>'' @
     ''    return (\<newline>'' @
     ''      '') @
    rootTag (if filled opts then ''currentColor'' else ''none'')
            (if filled opts then ''none'' else ''currentColor'')
            (if filled opts then ''undefined as any'' else ''strokeWidth'') @
    (''\<newline>'' @
     ''        {title ? <title id={titleId}>{title}</title> : null}\<newline>'' @
     ''        '' @ trim inner @ ''\<newline>'' @
     ''      </svg>\<newline>'' @
     ''    );\<newline>'' @
     ''  }\<newline>'' @
     ''));\<newline>'' @
     ''\<newline>'' @
     compName @ ''.displayName = "'' @ compName @ ''";\<newline>'' @
     ''export default '' @ compName @ '';\<newline>'')\<close>
  by (simp add: buildComponent_def componentData_def rootTag_def)

lemma component_defaults:
  \<open>buildComponent numStr (componentData opts compName inner) =
    (''import * as React from "react";\<newline>'' @
     ''\<newline>'' @
     ''export interface '' @ compName @ ''Props extends React.SVGProps<SVGSVGElement> {\<newline>'' @
     ''  title?: string;\<newline>'' @
     ''  titleId?: string;\<newline>'' @
     ''  size?: number;\<newline>'' @
     ''  strokeWidth?: number;\<newline>'' @
     ''}\<newline>'' @
     ''\<newline>'' @
     ''const '' @ compName @ '' = React.memo(React.forwardRef<SVGSVGElement, '' @ compName @ ''Props>(\<newline>'' @
     ''  ({ title, titleId, size = '' @ numStr (defaultSize opts) @ '', '') @
    (''strokeWidth = '' @ numStr (defaultStrokeWidth opts) @ '', ...props }'') @
    ('', ref) => {\<newline>'' @
     ''    return (\<newline>'' @
     ''      '' @
     rootTag (if filled opts then ''currentColor'' else ''none'')
            (if filled opts then ''none'' else ''currentColor'')
            (if filled opts then ''undefined as any'' else ''strokeWidth'') @
     ''\<newline>'' @
     ''        {title ? <title id={titleId}>{title}</title> : null}\<newline>'' @
     ''        '' @ trim inner @ ''\<newline>'' @
     ''      </svg>\<newline>'' @
     ''    );\<newline>'' @
     ''  }\<newline>'' @
     ''));\<newline>'' @
     ''\<newline>'' @
     compName @ ''.displayName = "'' @ compName @ ''";\<newline>'' @
     ''export default '' @ compName @ '';\<newline>'')\<close>
  by (simp add: buildComponent_def componentData_def rootTag_def)

lemma rootTag_filled_unbound:
  \<open>\<not> str_includes (rootTag ''currentColor'' ''none'' ''undefined as any'')
       ''strokeWidth={strokeWidth}''\<close>
  by code_simp

lemma generate_ok:
  assumes gen: "generate env opts w = (Inr (), w')"
    and glob: "globby env (srcDir opts) = Inr files"
  shows "files \<noteq> [] \<and>
         (\<exists>components indexCode.
            newWrites w w' =
              components @
              [(pathJoin env (outDir opts) ''index.ts'', indexCode),
               (pathJoin env (outDir opts) ''metadata.json'',
                stringifyMetadata
                  \<lparr>count = length (validFiles env opts files),
                   icons = map (entryOf env opts) (validFiles env opts files)\<rparr>)] \<and>
            map fst components = map (componentPath env opts) (validFiles env opts files))"
proof -
  let ?w2 = "loopStart opts files w"
  from gen glob have ne: "files \<noteq> []"
    by (auto simp: generate_def Let_def split: option.splits if_splits)
  from gen glob ne obtain entries w3 indexCode where
    loop: "processFiles env opts files [] ?w2 = (Inr entries, w3)" and
    w': "w' = consoleLog
               (doWrite (doWrite w3 (pathJoin env (outDir opts) ''index.ts'') indexCode)
                  (pathJoin env (outDir opts) ''metadata.json'')
                  (stringifyMetadata \<lparr>count = length entries, icons = entries\<rparr>))
               (''\<newline>'' @ pageSign @ '' Generated index.ts with '' @
                showNat (length entries) @ '' exports'')"
    by (auto simp: generate_def loopStart_def Let_def
             split: option.splits if_splits sum.splits prod.splits)
  obtain r d where d: "processFiles env opts files [] emptyWorld = (r, d)"
    by (cases "processFiles env opts files [] emptyWorld")
  have "processFiles env opts files [] (extend ?w2 emptyWorld) = (r, extend ?w2 d)"
    by (simp add: processFiles_extend d)
  with loop have r: "r = Inr entries" and w3: "w3 = extend ?w2 d"
    by (simp_all add: extend_empty)
  from processFiles_ok [OF d [unfolded r]]
  have entries: "entries = map (entryOf env opts) (validFiles env opts files)"
    and comps: "map fst (written d) = map (componentPath env opts) (validFiles env opts files)"
    by (simp_all add: emptyWorld_def)
  have "newWrites w w' =
          written d @
          [(pathJoin env (outDir opts) ''index.ts'', indexCode),
           (pathJoin env (outDir opts) ''metadata.json'',
            stringifyMetadata \<lparr>count = length entries, icons = entries\<rparr>)]"
    by (simp add: newWrites_def w' w3 consoleLog_def doWrite_def extend_def loopStart_def)
  with entries comps ne show ?thesis by auto
qed

lemma generate_succeeds:
  assumes "mkdir env (outDir opts) = None"
    and "globby env (srcDir opts) = Inr files"
    and "files \<noteq> []"
    and "\<forall>rel \<in> set files. \<exists>c. readFile env (pathJoin env (srcDir opts) rel) = Inr c"
    and "\<forall>s. \<exists>r. optimize env s = Inr r"
    and "\<forall>s. \<exists>r. transform env s = Inr r"
    and "\<forall>s. \<exists>r. prettierFormat env s = Inr r"
    and "\<forall>p c. writeFile env p c = None"
  shows "\<exists>w'. generate env opts w = (Inr (), w')"
proof -
  from processFiles_succeeds [OF assms(4-8)]
  obtain entries w3 where
    "processFiles env opts files [] (loopStart opts files w) = (Inr entries, w3)"
    by blast
  moreover obtain indexCode where "prettierFormat env (indexTpl entries) = Inr indexCode"
    using assms(7) by blast
  ultimately show ?thesis
    using assms(1-3,8) by (simp add: generate_def loopStart_def Let_def)
qed

lemma generate_same_sources:
  assumes "g2 (srcDir opts) = globby env (srcDir opts)"
    and "\<forall>files. globby env (srcDir opts) = Inr files \<longrightarrow>
           (\<forall>rel \<in> set files. r2 (pathJoin env (srcDir opts) rel) =
                                readFile env (pathJoin env (srcDir opts) rel))"
  shows "generate (env\<lparr>globby := g2, readFile := r2\<rparr>) opts w = generate env opts w"
proof (cases "globby env (srcDir opts)")
  case (Inl e)
  with assms(1) show ?thesis by (simp add: generate_def Let_def split: option.splits)
next
  case (Inr files)
  with assms(2) have "\<forall>rel \<in> set files. r2 (pathJoin env (srcDir opts) rel) =
                                readFile env (pathJoin env (srcDir opts) rel)"
    by blast
  then have "\<And>acc v. processFiles (env\<lparr>globby := g2, readFile := r2\<rparr>) opts files acc v =
                  processFiles env opts files acc v"
    using processFiles_readFile_cong [of files r2 "env\<lparr>globby := g2\<rparr>" opts]
    by (simp add: processFiles_globby_irrelevant)
  with Inr assms(1) show ?thesis
    by (simp add: generate_def Let_def split: option.splits sum.splits prod.splits)
qed

lemma generate_from_empty:
  "generate env opts w =
     (fst (generate env opts emptyWorld), extend w (snd (generate env opts emptyWorld)))"
  using generate_extend [of env opts w emptyWorld]
  by (simp add: extend_empty split: prod.splits)

lemma newWrites_extend: "newWrites w (extend w d) = written d"
  by (simp add: newWrites_def extend_def)

lemma lowercase_split:
  "list_all lowercaseToken (str_split s CHR ''-'') = lowercaseToken s"
proof (induction s)
  case Nil
  show ?case by (simp add: lowercaseToken_def)
next
  case (Cons c cs)
  obtain t ts where ts: "str_split cs CHR ''-'' = t # ts"
    using str_split_nonempty [of cs "CHR ''-''"] by (cases "str_split cs CHR ''-''") auto
  with Cons show ?case by (auto simp: lowercaseToken_def)
qed

lemma component_text_mode:
  \<open>(filled opts \<longrightarrow>
      str_includes (buildComponent numStr (componentData opts compName inner))
        (rootTag ''currentColor'' ''none'' ''undefined as any'') \<and>
      \<not> str_includes (rootTag ''currentColor'' ''none'' ''undefined as any'')
          ''strokeWidth={strokeWidth}'') \<and>
   (\<not> filled opts \<longrightarrow>
      str_includes (buildComponent numStr (componentData opts compName inner))
        (rootTag ''none'' ''currentColor'' ''strokeWidth'') \<and>
      str_includes (buildComponent numStr (componentData opts compName inner))
        (''strokeWidth = '' @ numStr (defaultStrokeWidth opts) @ '', ...props }''))\<close>
proof -
  have tag: "str_includes (buildComponent numStr (componentData opts compName inner))
        (rootTag (if filled opts then ''currentColor'' else ''none'')
            (if filled opts then ''none'' else ''currentColor'')
            (if filled opts then ''undefined as any'' else ''strokeWidth''))"
    unfolding component_split by (rule str_includes_append)
  have dflt: "str_includes (buildComponent numStr (componentData opts compName inner))
        (''strokeWidth = '' @ numStr (defaultStrokeWidth opts) @ '', ...props }'')"
    unfolding component_defaults by (rule str_includes_append)
  show ?thesis
  proof (cases "filled opts")
    case True
    with tag have "str_includes (buildComponent numStr (componentData opts compName inner))
        (rootTag ''currentColor'' ''none'' ''undefined as any'')"
      by (simp only: if_True)
    with True rootTag_filled_unbound show ?thesis by blast
  next
    case False
    with tag have "str_includes (buildComponent numStr (componentData opts compName inner))
        (rootTag ''none'' ''currentColor'' ''strokeWidth'')"
      by (simp only: if_False)
    with False dflt show ?thesis by blast
  qed
qed

lemma componentText_form:
  "componentText env opts rel = Some tsx \<Longrightarrow>
     \<exists>compName inner.
        tsx = buildComponent (numberToString env) (componentData opts compName inner)"
  by (auto simp: componentText_def split: sum.splits)

lemma processFiles_components:
  "processFiles env opts files acc w = (Inr entries, w') \<Longrightarrow>
     \<exists>cs. written w' = written w @ cs \<and>
          list_all2
            (\<lambda>rel (path, content).
               path = componentPath env opts rel \<and>
               (\<exists>tsx. componentText env opts rel = Some tsx \<and>
                      prettierFormat env tsx = Inr content))
            (validFiles env opts files) cs"
proof (induction files arbitrary: acc w)
  case Nil
  then show ?case by (simp add: validFiles_def)
next
  case (Cons rel rest)
  show ?case
  proof (cases "hasMarker env opts rel")
    case False
    with Cons.prems have
      "processFiles env opts rest acc
         (consoleWarn w (warningSign @ ''  Skipping invalid SVG: '' @ rel)) = (Inr entries, w')"
      by (auto simp: hasMarker_def Let_def split: sum.splits if_splits)
    from Cons.IH [OF this] False show ?thesis
      by (simp add: validFiles_def consoleWarn_def)
  next
    case True
    with Cons.prems obtain tsx pretty where
      tsx: "componentText env opts rel = Some tsx" and
      fmt: "prettierFormat env tsx = Inr pretty" and
      run: "processFiles env opts rest (acc @ [entryOf env opts rel])
         (consoleLog (doWrite w (componentPath env opts rel) pretty)
            (''  '' @ checkMark @ '' '' @ basename env rel @ '' '' @ rightArrow @ '' '' @
             pascalCase env (prefixOrEmpty opts @ basename env rel))) = (Inr entries, w')"
      by (auto simp: hasMarker_def Let_def entryOf_def componentPath_def prefixOrEmpty_def
                     componentText_def
               split: sum.splits if_splits option.splits)
    from Cons.IH [OF run] obtain cs where
      cs: "written w' = (written w @ [(componentPath env opts rel, pretty)]) @ cs" and
      all: "list_all2
            (\<lambda>rel (path, content).
               path = componentPath env opts rel \<and>
               (\<exists>tsx. componentText env opts rel = Some tsx \<and>
                      prettierFormat env tsx = Inr content))
            (validFiles env opts rest) cs"
      by (auto simp: consoleLog_def doWrite_def)
    have "written w' = written w @ (componentPath env opts rel, pretty) # cs"
      using cs by simp
    moreover have "list_all2
            (\<lambda>rel (path, content).
               path = componentPath env opts rel \<and>
               (\<exists>tsx. componentText env opts rel = Some tsx \<and>
                      prettierFormat env tsx = Inr content))
            (validFiles env opts (rel # rest)) ((componentPath env opts rel, pretty) # cs)"
      using all True tsx fmt by (simp add: validFiles_def)
    ultimately show ?thesis by blast
  qed
qed

lemma generate_runs_loop:
  assumes gen: "generate env opts w = (Inr (), w')"
    and glob: "globby env (srcDir opts) = Inr files"
  shows "\<exists>entries w3 a b.
           processFiles env opts files [] (loopStart opts files w) = (Inr entries, w3) \<and>
           written w' = written w3 @ [a, b]"
  using gen glob
  by (auto simp: generate_def loopStart_def Let_def consoleLog_def doWrite_def
           split: option.splits if_splits sum.splits prod.splits)

lemma list_all2_imp_list_all:
  "list_all2 R xs ys \<Longrightarrow> (\<And>x y. R x y \<Longrightarrow> P y) \<Longrightarrow> list_all P ys"
  by (induction rule: list_all2_induct) auto


lemma processFiles_components_mode:
  assumes "processFiles env opts files acc w = (Inr entries, w')"
  shows "list_all2
            (\<lambda>rel (path, content).
               path = componentPath env opts rel \<and>
               (\<exists>tsx. componentText env opts rel = Some tsx \<and>
                  prettierFormat env tsx = Inr content \<and>
                  (filled opts \<longrightarrow>
                     str_includes tsx (rootTag ''currentColor'' ''none'' ''undefined as any'') \<and>
                     \<not> str_includes (rootTag ''currentColor'' ''none'' ''undefined as any'')
                         ''strokeWidth={strokeWidth}'') \<and>
                  (\<not> filled opts \<longrightarrow>
                     str_includes tsx (rootTag ''none'' ''currentColor'' ''strokeWidth'') \<and>
                     str_includes tsx
                       (''strokeWidth = '' @ numberToString env (defaultStrokeWidth opts) @
                        '', ...props }''))))
            (validFiles env opts files) (newWrites w w')"
proof -
  from processFiles_components [OF assms] obtain cs where
    cs: "written w' = written w @ cs" and
    all: "list_all2
            (\<lambda>rel (path, content).
               path = componentPath env opts rel \<and>
               (\<exists>tsx. componentText env opts rel = Some tsx \<and>
                      prettierFormat env tsx = Inr content))
            (validFiles env opts files) cs"
    by blast
  have nw: "newWrites w w' = cs" by (simp add: newWrites_def cs)
  have "list_all2
            (\<lambda>rel (path, content).
               path = componentPath env opts rel \<and>
               (\<exists>tsx. componentText env opts rel = Some tsx \<and>
                  prettierFormat env tsx = Inr content \<and>
                  (filled opts \<longrightarrow>
                     str_includes tsx (rootTag ''currentColor'' ''none'' ''undefined as any'') \<and>
                     \<not> str_includes (rootTag ''currentColor'' ''none'' ''undefined as any'')
                         ''strokeWidth={strokeWidth}'') \<and>
                  (\<not> filled opts \<longrightarrow>
                     str_includes tsx (rootTag ''none'' ''currentColor'' ''strokeWidth'') \<and>
                     str_includes tsx
                       (''strokeWidth = '' @ numberToString env (defaultStrokeWidth opts) @
                        '', ...props }''))))
            (validFiles env opts files) cs"
    using all
  proof (rule list_all2_mono)
    fix rel pc
    assume h: "(case pc of (path, content) \<Rightarrow>
               path = componentPath env opts rel \<and>
               (\<exists>tsx. componentText env opts rel = Some tsx \<and>
                      prettierFormat env tsx = Inr content))"
    obtain path content where pc: "pc = (path, content)" by (cases pc)
    from h pc obtain tsx where p: "path = componentPath env opts rel"
      and t: "componentText env opts rel = Some tsx"
      and f: "prettierFormat env tsx = Inr content"
      by auto
    from componentText_form [OF t] obtain compName inner where
      form: "tsx = buildComponent (numberToString env) (componentData opts compName inner)"
      by blast
    from component_text_mode [of opts "numberToString env" compName inner]
    have "(filled opts \<longrightarrow>
                     str_includes tsx (rootTag ''currentColor'' ''none'' ''undefined as any'') \<and>
                     \<not> str_includes (rootTag ''currentColor'' ''none'' ''undefined as any'')
                         ''strokeWidth={strokeWidth}'') \<and>
                  (\<not> filled opts \<longrightarrow>
                     str_includes tsx (rootTag ''none'' ''currentColor'' ''strokeWidth'') \<and>
                     str_includes tsx
                       (''strokeWidth = '' @ numberToString env (defaultStrokeWidth opts) @
                        '', ...props }''))"
      unfolding form .
    with p t f pc show "(\<lambda>rel (path, content).
               path = componentPath env opts rel \<and>
               (\<exists>tsx. componentText env opts rel = Some tsx \<and>
                  prettierFormat env tsx = Inr content \<and>
                  (filled opts \<longrightarrow>
                     str_includes tsx (rootTag ''currentColor'' ''none'' ''undefined as any'') \<and>
                     \<not> str_includes (rootTag ''currentColor'' ''none'' ''undefined as any'')
                         ''strokeWidth={strokeWidth}'') \<and>
                  (\<not> filled opts \<longrightarrow>
                     str_includes tsx (rootTag ''none'' ''currentColor'' ''strokeWidth'') \<and>
                     str_includes tsx
                       (''strokeWidth = '' @ numberToString env (defaultStrokeWidth opts) @
                        '', ...props }'')))) rel pc"
      by blast
  qed
  with nw show ?thesis by simp
qed

text \<open>The sample run, evaluated.\<close>

lemma sample_loop_completes:
  "processFiles (sampleEnv sampleSources) sampleOpts (map fst sampleSources) [] emptyWorld =
     (Inr [\<lparr>name = ''ArrowLeft'', file = ''ArrowLeft'', tags = [''arrow'', ''left'']\<rparr>,
           \<lparr>name = ''AB'', file = ''AB'', tags = [''a'', [], ''b'']\<rparr>],
      snd (processFiles (sampleEnv sampleSources) sampleOpts (map fst sampleSources) []
             emptyWorld))"
proof -
  have "fst (processFiles (sampleEnv sampleSources) sampleOpts (map fst sampleSources) []
               emptyWorld) =
          Inr [\<lparr>name = ''ArrowLeft'', file = ''ArrowLeft'', tags = [''arrow'', ''left'']\<rparr>,
               \<lparr>name = ''AB'', file = ''AB'', tags = [''a'', [], ''b'']\<rparr>]"
    by code_simp
  then show ?thesis by (metis prod.collapse)
qed

lemma sample_loop_completes_prefixed:
  "processFiles (sampleEnv sampleSources) (sampleOpts\<lparr>prefix := Some ''Icon''\<rparr>)
     (map fst sampleSources) [] emptyWorld =
     (Inr [\<lparr>name = ''IconarrowLeft'', file = ''ArrowLeft'', tags = [''arrow'', ''left'']\<rparr>,
           \<lparr>name = ''IconaB'', file = ''AB'', tags = [''a'', [], ''b'']\<rparr>],
      snd (processFiles (sampleEnv sampleSources) (sampleOpts\<lparr>prefix := Some ''Icon''\<rparr>)
             (map fst sampleSources) [] emptyWorld))"
proof -
  have "fst (processFiles (sampleEnv sampleSources) (sampleOpts\<lparr>prefix := Some ''Icon''\<rparr>)
               (map fst sampleSources) [] emptyWorld) =
          Inr [\<lparr>name = ''IconarrowLeft'', file = ''ArrowLeft'', tags = [''arrow'', ''left'']\<rparr>,
               \<lparr>name = ''IconaB'', file = ''AB'', tags = [''a'', [], ''b'']\<rparr>]"
    by code_simp
  then show ?thesis by (metis prod.collapse)
qed

lemma sample_valid_files_prefixed:
  "validFiles (sampleEnv sampleSources) (sampleOpts\<lparr>prefix := Some ''Icon''\<rparr>)
     (map fst sampleSources) = [''arrow-left.svg'', ''sub/a--b.svg'']"
  by code_simp

lemma sample_loop_completes_filled:
  "processFiles (sampleEnv sampleSources) (sampleOpts\<lparr>filled := True\<rparr>)
     (map fst sampleSources) [] emptyWorld =
     (Inr [\<lparr>name = ''ArrowLeft'', file = ''ArrowLeft'', tags = [''arrow'', ''left'']\<rparr>,
           \<lparr>name = ''AB'', file = ''AB'', tags = [''a'', [], ''b'']\<rparr>],
      snd (processFiles (sampleEnv sampleSources) (sampleOpts\<lparr>filled := True\<rparr>)
             (map fst sampleSources) [] emptyWorld))"
proof -
  have "fst (processFiles (sampleEnv sampleSources) (sampleOpts\<lparr>filled := True\<rparr>)
               (map fst sampleSources) [] emptyWorld) =
          Inr [\<lparr>name = ''ArrowLeft'', file = ''ArrowLeft'', tags = [''arrow'', ''left'']\<rparr>,
               \<lparr>name = ''AB'', file = ''AB'', tags = [''a'', [], ''b'']\<rparr>]"
    by code_simp
  then show ?thesis by (metis prod.collapse)
qed

lemma sample_valid_files_filled:
  "validFiles (sampleEnv sampleSources) (sampleOpts\<lparr>filled := True\<rparr>)
     (map fst sampleSources) = [''arrow-left.svg'', ''sub/a--b.svg'']"
  by code_simp

lemma sample_run_completes:
  "generate (sampleEnv sampleSources) sampleOpts emptyWorld =
     (Inr (), snd (generate (sampleEnv sampleSources) sampleOpts emptyWorld))"
proof -
  have "\<exists>w'. generate (sampleEnv sampleSources) sampleOpts emptyWorld = (Inr (), w')"
    by (rule generate_succeeds [where files = "map fst sampleSources"])
       (simp_all add: sampleEnv_def sampleSources_def sampleOpts_def)
  then show ?thesis by auto
qed

lemma sample_valid_files:
  "validFiles (sampleEnv sampleSources) sampleOpts (map fst sampleSources) =
     [''arrow-left.svg'', ''sub/a--b.svg'']"
  by code_simp

section \<open>Tags\<close>

text \<open>
  C10. For every processed file, joining the derived tags with the hyphen character gives
  back the base name exactly: the tags are the verbatim hyphen-split of the base name, with
  no lowercasing and no filtering. The loop having completed with \<open>entries\<close>, the joined
  tags of the entries are, in order, the base names of the valid files.
\<close>

theorem tags_join_base:
  assumes "processFiles env opts files [] w = (Inr entries, w')"
  shows "map (\<lambda>e. str_join (tags e) ''-'') entries =
           map (basename env) (validFiles env opts files)"
proof -
  from processFiles_ok [OF assms]
  have "entries = map (entryOf env opts) (validFiles env opts files)" by simp
  then show ?thesis by (simp add: entryOf_def str_join_split)
qed

theorem tags_join_base_witness:
  "map (\<lambda>e. str_join (tags e) ''-'')
       [\<lparr>name = ''ArrowLeft'', file = ''ArrowLeft'', tags = [''arrow'', ''left'']\<rparr>,
        \<lparr>name = ''AB'', file = ''AB'', tags = [''a'', [], ''b'']\<rparr>] =
     map (basename (sampleEnv sampleSources)) [''arrow-left.svg'', ''sub/a--b.svg'']"
  using tags_join_base [OF sample_loop_completes] by (simp only: sample_valid_files)

text \<open>
  C7, as the code has it. For every processed file the tags are the base name split on the
  literal hyphen character, in order and with nothing else done to them: the case of the
  characters is kept, so the tokens are lowercase exactly when the base name holds no
  capital letter, and the empty tokens that consecutive hyphens give are kept. The base
  name \<open>arrow-left-circle\<close> gives the tags \<open>arrow\<close>, \<open>left\<close>, \<open>circle\<close>.
\<close>

theorem tags_verbatim_split:
  assumes "processFiles env opts files [] w = (Inr entries, w')"
  shows "map tags entries =
           map (\<lambda>rel. str_split (basename env rel) CHR ''-'') (validFiles env opts files) \<and>
         (\<forall>e \<in> set entries. \<exists>rel \<in> set (validFiles env opts files).
            tags e = str_split (basename env rel) CHR ''-'' \<and>
            list_all lowercaseToken (tags e) = lowercaseToken (basename env rel)) \<and>
         str_split ''arrow-left-circle'' CHR ''-'' = [''arrow'', ''left'', ''circle''] \<and>
         str_split ''a--b'' CHR ''-'' = [''a'', [], ''b'']"
proof -
  from processFiles_ok [OF assms]
  have e: "entries = map (entryOf env opts) (validFiles env opts files)" by simp
  have 1: "map tags entries =
             map (\<lambda>rel. str_split (basename env rel) CHR ''-'') (validFiles env opts files)"
    by (simp add: e entryOf_def)
  have 2: "\<forall>e \<in> set entries. \<exists>rel \<in> set (validFiles env opts files).
            tags e = str_split (basename env rel) CHR ''-'' \<and>
            list_all lowercaseToken (tags e) = lowercaseToken (basename env rel)"
    by (auto simp: e entryOf_def lowercase_split)
  have 3: "str_split ''arrow-left-circle'' CHR ''-'' = [''arrow'', ''left'', ''circle'']"
    by simp
  have 4: "str_split ''a--b'' CHR ''-'' = [''a'', [], ''b'']"
    by simp
  from 1 2 3 4 show ?thesis by blast
qed

theorem tags_verbatim_split_witness:
  "map tags [\<lparr>name = ''ArrowLeft'', file = ''ArrowLeft'', tags = [''arrow'', ''left'']\<rparr>,
             \<lparr>name = ''AB'', file = ''AB'', tags = [''a'', [], ''b'']\<rparr>] =
     map (\<lambda>rel. str_split (basename (sampleEnv sampleSources) rel) CHR ''-'')
       [''arrow-left.svg'', ''sub/a--b.svg'']"
  using tags_verbatim_split [OF sample_loop_completes] by (simp only: sample_valid_files)

text \<open>
  C7, as the specification words it, fails: the tokens are not lowercase when the base name
  is not. The file \<open>Arrow-Left.svg\<close> gets the tags \<open>Arrow\<close> and \<open>Left\<close>.
\<close>

theorem tags_lowercase_counterexample:
  "map_sum id (map tags)
     (fst (processFiles (sampleEnv [(''Arrow-Left.svg'', ''<svg></svg>'')]) sampleOpts
             [''Arrow-Left.svg''] [] emptyWorld)) = Inr [[''Arrow'', ''Left'']] \<and>
   \<not> list_all lowercaseToken [''Arrow'', ''Left'']"
  by code_simp

section \<open>Identifiers\<close>

text \<open>
  C4. For every processed file with base name \<open>b\<close>: the file identifier is the pascal-case
  of \<open>b\<close>; with a prefix \<open>p\<close> the component identifier is the pascal-case of \<open>p\<close> followed by
  \<open>b\<close>, converted in one pass; without a prefix the component identifier is the file
  identifier.
\<close>

theorem identifiers_from_base_name:
  assumes "processFiles env opts files [] w = (Inr entries, w')"
  shows "map file entries =
           map (\<lambda>rel. pascalCase env (basename env rel)) (validFiles env opts files) \<and>
         (\<forall>p. prefix opts = Some p \<longrightarrow>
            map name entries =
              map (\<lambda>rel. pascalCase env (p @ basename env rel)) (validFiles env opts files)) \<and>
         (prefix opts = None \<longrightarrow> map name entries = map file entries)"
proof -
  from processFiles_ok [OF assms]
  have e: "entries = map (entryOf env opts) (validFiles env opts files)" by simp
  show ?thesis by (simp add: e entryOf_def prefixOrEmpty_def)
qed

theorem identifiers_from_base_name_witness:
  "(prefix sampleOpts = None \<and>
    map name [\<lparr>name = ''ArrowLeft'', file = ''ArrowLeft'', tags = [''arrow'', ''left'']\<rparr>,
              \<lparr>name = ''AB'', file = ''AB'', tags = [''a'', [], ''b'']\<rparr>] =
    map file [\<lparr>name = ''ArrowLeft'', file = ''ArrowLeft'', tags = [''arrow'', ''left'']\<rparr>,
              \<lparr>name = ''AB'', file = ''AB'', tags = [''a'', [], ''b'']\<rparr>]) \<and>
   (prefix (sampleOpts\<lparr>prefix := Some ''Icon''\<rparr>) = Some ''Icon'' \<and>
    map name [\<lparr>name = ''IconarrowLeft'', file = ''ArrowLeft'', tags = [''arrow'', ''left'']\<rparr>,
              \<lparr>name = ''IconaB'', file = ''AB'', tags = [''a'', [], ''b'']\<rparr>] =
    map (\<lambda>rel. pascalCase (sampleEnv sampleSources)
                 (''Icon'' @ basename (sampleEnv sampleSources) rel))
      [''arrow-left.svg'', ''sub/a--b.svg''])"
proof -
  have a: "prefix sampleOpts = None" by (simp add: sampleOpts_def)
  have b: "prefix (sampleOpts\<lparr>prefix := Some ''Icon''\<rparr>) = Some ''Icon''" by simp
  from identifiers_from_base_name [OF sample_loop_completes] a
  have 1: "map name [\<lparr>name = ''ArrowLeft'', file = ''ArrowLeft'', tags = [''arrow'', ''left'']\<rparr>,
                     \<lparr>name = ''AB'', file = ''AB'', tags = [''a'', [], ''b'']\<rparr>] =
           map file [\<lparr>name = ''ArrowLeft'', file = ''ArrowLeft'', tags = [''arrow'', ''left'']\<rparr>,
                     \<lparr>name = ''AB'', file = ''AB'', tags = [''a'', [], ''b'']\<rparr>]"
    by blast
  from identifiers_from_base_name [OF sample_loop_completes_prefixed] b
  have 2: "map name [\<lparr>name = ''IconarrowLeft'', file = ''ArrowLeft'', tags = [''arrow'', ''left'']\<rparr>,
                     \<lparr>name = ''IconaB'', file = ''AB'', tags = [''a'', [], ''b'']\<rparr>] =
           map (\<lambda>rel. pascalCase (sampleEnv sampleSources)
                        (''Icon'' @ basename (sampleEnv sampleSources) rel))
             (validFiles (sampleEnv sampleSources) (sampleOpts\<lparr>prefix := Some ''Icon''\<rparr>)
                (map fst sampleSources))"
    by blast
  from a b 1 2 show ?thesis by (simp only: sample_valid_files_prefixed)
qed

section \<open>Files without the marker\<close>

text \<open>
  C6. A discovered file that is read and whose content does not contain the marker \<open><svg\<close>:
  the loop, in whatever state it reaches the file (entries so far, world so far), records a
  warning that names the relative path and goes on with the files after it, with the same
  entries and nothing written; a loop that then completes has added no entry for the file,
  only those of the valid files after it.
\<close>

theorem invalid_file_skipped:
  assumes "readFile env (pathJoin env (srcDir opts) rel) = Inr svgRaw"
    and "\<not> str_includes svgRaw ''<svg''"
  shows "processFiles env opts (rel # rest) entries w =
           processFiles env opts rest entries
             (w\<lparr>console := console w @
                   [Warn (warningSign @ ''  Skipping invalid SVG: '' @ rel)]\<rparr>) \<and>
         (\<forall>entries' w'. processFiles env opts (rel # rest) entries w = (Inr entries', w') \<longrightarrow>
            entries' = entries @ map (entryOf env opts) (validFiles env opts rest))"
proof -
  have step: "processFiles env opts (rel # rest) entries w =
           processFiles env opts rest entries
             (w\<lparr>console := console w @
                   [Warn (warningSign @ ''  Skipping invalid SVG: '' @ rel)]\<rparr>)"
    using assms by (simp add: consoleWarn_def)
  have "\<forall>entries' w'. processFiles env opts (rel # rest) entries w = (Inr entries', w') \<longrightarrow>
            entries' = entries @ map (entryOf env opts) (validFiles env opts rest)"
    unfolding step using processFiles_ok by blast
  with step show ?thesis by blast
qed

theorem invalid_file_skipped_witness:
  "processFiles (sampleEnv sampleSources) sampleOpts [''notes.svg'', ''sub/a--b.svg''] []
     emptyWorld =
   processFiles (sampleEnv sampleSources) sampleOpts [''sub/a--b.svg''] []
     (emptyWorld\<lparr>console := console emptyWorld @
        [Warn (warningSign @ ''  Skipping invalid SVG: '' @ ''notes.svg'')]\<rparr>) \<and>
   [\<lparr>name = ''AB'', file = ''AB'', tags = [''a'', [], ''b'']\<rparr>] =
     [] @ map (entryOf (sampleEnv sampleSources) sampleOpts)
            (validFiles (sampleEnv sampleSources) sampleOpts [''sub/a--b.svg''])"
proof -
  have r: "readFile (sampleEnv sampleSources)
             (pathJoin (sampleEnv sampleSources) (srcDir sampleOpts) ''notes.svg'') =
           Inr ''plain text''"
    by (simp add: sampleEnv_def sampleSources_def sampleOpts_def)
  have m: "\<not> str_includes ''plain text'' ''<svg''"
    by simp
  have "fst (processFiles (sampleEnv sampleSources) sampleOpts
               [''notes.svg'', ''sub/a--b.svg''] [] emptyWorld) =
          Inr [\<lparr>name = ''AB'', file = ''AB'', tags = [''a'', [], ''b'']\<rparr>]"
    by code_simp
  then have run: "processFiles (sampleEnv sampleSources) sampleOpts
                    [''notes.svg'', ''sub/a--b.svg''] [] emptyWorld =
          (Inr [\<lparr>name = ''AB'', file = ''AB'', tags = [''a'', [], ''b'']\<rparr>],
           snd (processFiles (sampleEnv sampleSources) sampleOpts
                  [''notes.svg'', ''sub/a--b.svg''] [] emptyWorld))"
    by (metis prod.collapse)
  from invalid_file_skipped [OF r m, of "[''sub/a--b.svg'']" "[]" emptyWorld] run
  show ?thesis by blast
qed

section \<open>Failures\<close>

text \<open>
  C5. When the output directory has been created and the enumerator returns no file,
  \<open>generate\<close> fails with the error for missing input, whose message names the configured
  source directory; the world it leaves is the one it started from with the output
  directory created.
\<close>

theorem no_input_files:
  assumes "mkdir env (outDir opts) = None"
    and "globby env (srcDir opts) = Inr []"
  shows "generate env opts w =
           (Inl (Error (''No SVG files found in '' @ srcDir opts)),
            w\<lparr>dirs := dirs w @ [outDir opts]\<rparr>) \<and>
         str_includes (''No SVG files found in '' @ srcDir opts) (srcDir opts)"
proof -
  have "str_includes (''No SVG files found in '' @ srcDir opts @ []) (srcDir opts)"
    by (rule str_includes_append)
  with assms show ?thesis by (simp add: generate_def)
qed

theorem no_input_files_witness:
  "generate (sampleEnv []) sampleOpts emptyWorld =
     (Inl (Error ''No SVG files found in icons-src''),
      \<lparr>dirs = [''icons''], written = [], console = []\<rparr>)"
proof -
  have a: "mkdir (sampleEnv []) (outDir sampleOpts) = None" by (simp add: sampleEnv_def)
  have b: "globby (sampleEnv []) (srcDir sampleOpts) = Inr []" by (simp add: sampleEnv_def)
  from no_input_files [OF a b, of emptyWorld] show ?thesis
    by (simp add: sampleOpts_def emptyWorld_def)
qed


text \<open>
  C8, as the code has it. When the optimizer raises an error on a valid file, \<open>generate\<close>
  fails with that error, and the world it leaves is the one reached after the files before
  it: no file after it is processed, and neither the barrel file nor the metadata file is
  written.
\<close>

theorem optimize_error_aborts_run:
  assumes "mkdir env (outDir opts) = None"
    and "globby env (srcDir opts) = Inr (pre @ rel # rest)"
    and "processFiles env opts pre [] (loopStart opts (pre @ rel # rest) w) = (Inr es, w1)"
    and "readFile env (pathJoin env (srcDir opts) rel) = Inr svgRaw"
    and "str_includes svgRaw ''<svg''"
    and "optimize env svgRaw = Inl e"
  shows "generate env opts w = (Inl e, w1)"
proof -
  from assms(4-6) have "processFiles env opts (rel # rest) es w1 = (Inl e, w1)"
    by simp
  with assms(3)
  have "processFiles env opts (pre @ rel # rest) [] (loopStart opts (pre @ rel # rest) w) =
          (Inl e, w1)"
    by (simp add: processFiles_append)
  with assms(1,2) show ?thesis
    by (simp add: generate_def loopStart_def Let_def)
qed

theorem optimize_error_aborts_run_witness:
  "generate (strictEnv (sampleSources @ brokenSources)) sampleOpts emptyWorld =
     (Inl (Error ''SvgoParserError''),
      snd (processFiles (strictEnv (sampleSources @ brokenSources)) sampleOpts
             (map fst sampleSources) []
             (loopStart sampleOpts (map fst sampleSources @ ''broken.svg'' # [''ok.svg''])
                emptyWorld)))"
proof -
  let ?env = "strictEnv (sampleSources @ brokenSources)"
  have a: "mkdir ?env (outDir sampleOpts) = None"
    by (simp add: strictEnv_def sampleEnv_def)
  have b: "globby ?env (srcDir sampleOpts) =
             Inr (map fst sampleSources @ ''broken.svg'' # [''ok.svg''])"
    by (simp add: strictEnv_def sampleEnv_def brokenSources_def)
  have "fst (processFiles ?env sampleOpts (map fst sampleSources) []
          (loopStart sampleOpts (map fst sampleSources @ ''broken.svg'' # [''ok.svg''])
             emptyWorld)) =
        Inr [\<lparr>name = ''ArrowLeft'', file = ''ArrowLeft'', tags = [''arrow'', ''left'']\<rparr>,
             \<lparr>name = ''AB'', file = ''AB'', tags = [''a'', [], ''b'']\<rparr>]"
    by code_simp
  then have c: "processFiles ?env sampleOpts (map fst sampleSources) []
          (loopStart sampleOpts (map fst sampleSources @ ''broken.svg'' # [''ok.svg''])
             emptyWorld) =
        (Inr [\<lparr>name = ''ArrowLeft'', file = ''ArrowLeft'', tags = [''arrow'', ''left'']\<rparr>,
              \<lparr>name = ''AB'', file = ''AB'', tags = [''a'', [], ''b'']\<rparr>],
         snd (processFiles ?env sampleOpts (map fst sampleSources) []
          (loopStart sampleOpts (map fst sampleSources @ ''broken.svg'' # [''ok.svg''])
             emptyWorld)))"
    by (metis prod.collapse)
  have d: \<open>readFile ?env (pathJoin ?env (srcDir sampleOpts) ''broken.svg'') =
             Inr ''<svg><path d="M0 0"</svg>''\<close>
    by code_simp
  have e: \<open>str_includes ''<svg><path d="M0 0"</svg>'' ''<svg''\<close>
    by simp
  have f: \<open>optimize ?env ''<svg><path d="M0 0"</svg>'' = Inl (Error ''SvgoParserError'')\<close>
    by (simp add: strictEnv_def)
  from optimize_error_aborts_run [OF a b c d e f] show ?thesis .
qed


text \<open>
  C8, as the specification words it, fails: the optimizer rejecting \<open>broken.svg\<close> ends the
  run with its error, and the valid file \<open>ok.svg\<close> after it is never processed: nothing
  is written.
\<close>

theorem optimize_error_counterexample:
  "generate (strictEnv brokenSources) sampleOpts emptyWorld =
     (Inl (Error ''SvgoParserError''),
      \<lparr>dirs = [''icons''], written = [],
       console = [Log (packageSign @ '' Found 2 SVG file(s)'')]\<rparr>) \<and>
   hasMarker (strictEnv brokenSources) sampleOpts ''ok.svg''"
  by code_simp

section \<open>The component text\<close>

text \<open>
  C2. Every component text that \<open>generate\<close> builds follows the filled flag. Each valid file
  has one component file written, at its path, whose content is what the formatter made of
  the text built for that file (\<open>componentText\<close>), and in that text: when the filled flag is
  set, the root element has \<open>fill\<close> set to \<open>currentColor\<close> and \<open>stroke\<close> to \<open>none\<close>, and its
  \<open>strokeWidth\<close> attribute is bound to \<open>undefined as any\<close>, not to the \<open>strokeWidth\<close> prop;
  when the flag is not set, \<open>fill\<close> is \<open>none\<close>, \<open>stroke\<close> is \<open>currentColor\<close> and
  \<open>strokeWidth\<close> is bound to the prop, whose default in the parameter list is the configured
  default stroke width. This holds of the files written by a completed loop, and of the
  files a completed run of \<open>generate\<close> has written before the barrel and the metadata file.
\<close>

theorem root_element_follows_mode:
  "(\<forall>entries w'. processFiles env opts files [] w = (Inr entries, w') \<longrightarrow>
      list_all2
            (\<lambda>rel (path, content).
               path = componentPath env opts rel \<and>
               (\<exists>tsx. componentText env opts rel = Some tsx \<and>
                  prettierFormat env tsx = Inr content \<and>
                  (filled opts \<longrightarrow>
                     str_includes tsx (rootTag ''currentColor'' ''none'' ''undefined as any'') \<and>
                     \<not> str_includes (rootTag ''currentColor'' ''none'' ''undefined as any'')
                         ''strokeWidth={strokeWidth}'') \<and>
                  (\<not> filled opts \<longrightarrow>
                     str_includes tsx (rootTag ''none'' ''currentColor'' ''strokeWidth'') \<and>
                     str_includes tsx
                       (''strokeWidth = '' @ numberToString env (defaultStrokeWidth opts) @
                        '', ...props }''))))
            (validFiles env opts files) (newWrites w w')) \<and>
   (\<forall>w'. generate env opts w = (Inr (), w') \<and> globby env (srcDir opts) = Inr files \<longrightarrow>
      list_all2
            (\<lambda>rel (path, content).
               path = componentPath env opts rel \<and>
               (\<exists>tsx. componentText env opts rel = Some tsx \<and>
                  prettierFormat env tsx = Inr content \<and>
                  (filled opts \<longrightarrow>
                     str_includes tsx (rootTag ''currentColor'' ''none'' ''undefined as any'') \<and>
                     \<not> str_includes (rootTag ''currentColor'' ''none'' ''undefined as any'')
                         ''strokeWidth={strokeWidth}'') \<and>
                  (\<not> filled opts \<longrightarrow>
                     str_includes tsx (rootTag ''none'' ''currentColor'' ''strokeWidth'') \<and>
                     str_includes tsx
                       (''strokeWidth = '' @ numberToString env (defaultStrokeWidth opts) @
                        '', ...props }''))))
            (validFiles env opts files) (butlast (butlast (newWrites w w'))))"
proof (intro conjI allI impI)
  fix entries w'
  assume "processFiles env opts files [] w = (Inr entries, w')"
  then show "list_all2
            (\<lambda>rel (path, content).
               path = componentPath env opts rel \<and>
               (\<exists>tsx. componentText env opts rel = Some tsx \<and>
                  prettierFormat env tsx = Inr content \<and>
                  (filled opts \<longrightarrow>
                     str_includes tsx (rootTag ''currentColor'' ''none'' ''undefined as any'') \<and>
                     \<not> str_includes (rootTag ''currentColor'' ''none'' ''undefined as any'')
                         ''strokeWidth={strokeWidth}'') \<and>
                  (\<not> filled opts \<longrightarrow>
                     str_includes tsx (rootTag ''none'' ''currentColor'' ''strokeWidth'') \<and>
                     str_includes tsx
                       (''strokeWidth = '' @ numberToString env (defaultStrokeWidth opts) @
                        '', ...props }''))))
            (validFiles env opts files) (newWrites w w')"
    by (rule processFiles_components_mode)
next
  fix w'
  assume "generate env opts w = (Inr (), w') \<and> globby env (srcDir opts) = Inr files"
  then have gen: "generate env opts w = (Inr (), w')"
    and glob: "globby env (srcDir opts) = Inr files" by simp_all
  from generate_runs_loop [OF gen glob] obtain entries w3 a b where
    loop: "processFiles env opts files [] (loopStart opts files w) = (Inr entries, w3)" and
    wr: "written w' = written w3 @ [a, b]"
    by blast
  from processFiles_components [OF loop] obtain cs where
    cs: "written w3 = written (loopStart opts files w) @ cs" by blast
  have "written (loopStart opts files w) = written w"
    by (simp add: loopStart_def consoleLog_def)
  with cs wr have "butlast (butlast (newWrites w w')) = newWrites (loopStart opts files w) w3"
    by (simp add: newWrites_def butlast_append)
  with processFiles_components_mode [OF loop]
  show "list_all2
            (\<lambda>rel (path, content).
               path = componentPath env opts rel \<and>
               (\<exists>tsx. componentText env opts rel = Some tsx \<and>
                  prettierFormat env tsx = Inr content \<and>
                  (filled opts \<longrightarrow>
                     str_includes tsx (rootTag ''currentColor'' ''none'' ''undefined as any'') \<and>
                     \<not> str_includes (rootTag ''currentColor'' ''none'' ''undefined as any'')
                         ''strokeWidth={strokeWidth}'') \<and>
                  (\<not> filled opts \<longrightarrow>
                     str_includes tsx (rootTag ''none'' ''currentColor'' ''strokeWidth'') \<and>
                     str_includes tsx
                       (''strokeWidth = '' @ numberToString env (defaultStrokeWidth opts) @
                        '', ...props }''))))
            (validFiles env opts files) (butlast (butlast (newWrites w w')))"
    by simp
qed


theorem root_element_follows_mode_witness:
  "(filled (sampleOpts\<lparr>filled := True\<rparr>) \<and>
    length (newWrites emptyWorld
              (snd (processFiles (sampleEnv sampleSources) (sampleOpts\<lparr>filled := True\<rparr>)
                      (map fst sampleSources) [] emptyWorld))) = 2 \<and>
    list_all (\<lambda>(path, content).
                str_includes content (rootTag ''currentColor'' ''none'' ''undefined as any''))
      (newWrites emptyWorld
         (snd (processFiles (sampleEnv sampleSources) (sampleOpts\<lparr>filled := True\<rparr>)
                 (map fst sampleSources) [] emptyWorld)))) \<and>
   (\<not> filled sampleOpts \<and>
    length (butlast (butlast (newWrites emptyWorld
              (snd (generate (sampleEnv sampleSources) sampleOpts emptyWorld))))) = 2 \<and>
    list_all (\<lambda>(path, content).
                str_includes content (rootTag ''none'' ''currentColor'' ''strokeWidth'') \<and>
                str_includes content (''strokeWidth = '' @ ''2'' @ '', ...props }''))
      (butlast (butlast (newWrites emptyWorld
         (snd (generate (sampleEnv sampleSources) sampleOpts emptyWorld))))))"
proof -
  let ?env = "sampleEnv sampleSources"
  let ?fo = "sampleOpts\<lparr>filled := True\<rparr>"
  let ?wf = "snd (processFiles ?env ?fo (map fst sampleSources) [] emptyWorld)"
  let ?wg = "snd (generate ?env sampleOpts emptyWorld)"
  have a: "filled ?fo" by simp
  have b: "\<not> filled sampleOpts" by (simp add: sampleOpts_def)
  have c: "numberToString ?env (defaultStrokeWidth sampleOpts) = ''2''" by code_simp
  have fmt: "\<And>tsx content. prettierFormat ?env tsx = Inr content \<Longrightarrow> content = tsx"
    by (simp add: sampleEnv_def)
  have glob: "globby ?env (srcDir sampleOpts) = Inr (map fst sampleSources)"
    by (simp add: sampleEnv_def)
  from root_element_follows_mode [of ?env ?fo "map fst sampleSources" emptyWorld]
       sample_loop_completes_filled
  have f2: "list_all2
            (\<lambda>rel (path, content).
               path = componentPath ?env ?fo rel \<and>
               (\<exists>tsx. componentText ?env ?fo rel = Some tsx \<and>
                  prettierFormat ?env tsx = Inr content \<and>
                  (filled ?fo \<longrightarrow>
                     str_includes tsx (rootTag ''currentColor'' ''none'' ''undefined as any'') \<and>
                     \<not> str_includes (rootTag ''currentColor'' ''none'' ''undefined as any'')
                         ''strokeWidth={strokeWidth}'') \<and>
                  (\<not> filled ?fo \<longrightarrow>
                     str_includes tsx (rootTag ''none'' ''currentColor'' ''strokeWidth'') \<and>
                     str_includes tsx
                       (''strokeWidth = '' @ numberToString ?env (defaultStrokeWidth ?fo) @
                        '', ...props }''))))
            (validFiles ?env ?fo (map fst sampleSources)) (newWrites emptyWorld ?wf)"
    by blast
  from f2 have lf: "length (newWrites emptyWorld ?wf) = 2"
    by (simp add: list_all2_lengthD [symmetric] sample_valid_files_filled)
  from f2 have pf: "list_all (\<lambda>(path, content).
                str_includes content (rootTag ''currentColor'' ''none'' ''undefined as any''))
      (newWrites emptyWorld ?wf)"
    by (rule list_all2_imp_list_all) (use a fmt in auto)
  from root_element_follows_mode [of ?env sampleOpts "map fst sampleSources" emptyWorld]
       sample_run_completes glob
  have g2: "list_all2
            (\<lambda>rel (path, content).
               path = componentPath ?env sampleOpts rel \<and>
               (\<exists>tsx. componentText ?env sampleOpts rel = Some tsx \<and>
                  prettierFormat ?env tsx = Inr content \<and>
                  (filled sampleOpts \<longrightarrow>
                     str_includes tsx (rootTag ''currentColor'' ''none'' ''undefined as any'') \<and>
                     \<not> str_includes (rootTag ''currentColor'' ''none'' ''undefined as any'')
                         ''strokeWidth={strokeWidth}'') \<and>
                  (\<not> filled sampleOpts \<longrightarrow>
                     str_includes tsx (rootTag ''none'' ''currentColor'' ''strokeWidth'') \<and>
                     str_includes tsx
                       (''strokeWidth = '' @ numberToString ?env (defaultStrokeWidth sampleOpts) @
                        '', ...props }''))))
            (validFiles ?env sampleOpts (map fst sampleSources))
            (butlast (butlast (newWrites emptyWorld ?wg)))"
    by blast
  from g2 have lg: "length (butlast (butlast (newWrites emptyWorld ?wg))) = 2"
    by (simp only: list_all2_lengthD [symmetric] sample_valid_files) simp
  from g2 have pg: "list_all (\<lambda>(path, content).
                str_includes content (rootTag ''none'' ''currentColor'' ''strokeWidth'') \<and>
                str_includes content (''strokeWidth = '' @ ''2'' @ '', ...props }''))
      (butlast (butlast (newWrites emptyWorld ?wg)))"
    by (rule list_all2_imp_list_all) (use b c fmt in auto)
  from a b lf pf lg pg show ?thesis by blast
qed

section \<open>Sanitization\<close>

text \<open>
  C3 does not hold of the code. Each \<open>replaceAll\<close> makes one pass from the left, and what a
  removed match leaves behind can join into a new occurrence: the raw body
  \<open>fifill=""ll="x"\<close> is sanitized to \<open>fill="x"\<close>, which holds a \<open>fill\<close> attribute and which a
  second sanitization would change again. The same happens inside a document: the body
  embedded for \<open><svg><text>fifill=""ll="x"</text></svg>\<close> is \<open><text>fill="x"</text>\<close>.
\<close>

theorem sanitize_splices_attribute:
  \<open>sanitize ''fifill=""ll="x"'' = ''fill="x"'' \<and>
   hasAttr ''fill'' (sanitize ''fifill=""ll="x"'') \<and>
   sanitize (sanitize ''fifill=""ll="x"'') = [] \<and>
   svgBody (componentData sampleOpts ''Label''
              (stripColours (rawBody ''<svg><text>fifill=""ll="x"</text></svg>''))) =
     ''<text>fill="x"</text>'' \<and>
   hasAttr ''fill'' ''<text>fill="x"</text>''\<close>
  by code_simp

section \<open>The artifacts of a run\<close>

text \<open>
  C1. Given the enumeration \<open>files\<close>: when no collaborator fails (the output directory can be
  created, the enumeration is not empty, every discovered file can be read, the adapters
  and the writes succeed), \<open>generate\<close> completes; and every run that completes was over a
  nonempty enumeration and has written exactly as many files as there are valid inputs,
  plus two: one component file per valid input, at the path of its file identifier, then
  the barrel file, then the metadata file. The metadata document's count is the number of
  its entries, which is the number of component files written. An artifact is a file
  written by \<open>fs.writeFile\<close>: two inputs with the same file identifier are written one after
  the other to the same path and count as two.
\<close>

theorem artifact_count:
  assumes "globby env (srcDir opts) = Inr files"
  shows "(mkdir env (outDir opts) = None \<and> files \<noteq> [] \<and>
          (\<forall>rel \<in> set files. \<exists>c. readFile env (pathJoin env (srcDir opts) rel) = Inr c) \<and>
          (\<forall>s. \<exists>r. optimize env s = Inr r) \<and>
          (\<forall>s. \<exists>r. transform env s = Inr r) \<and>
          (\<forall>s. \<exists>r. prettierFormat env s = Inr r) \<and>
          (\<forall>p c. writeFile env p c = None) \<longrightarrow>
          (\<exists>w'. generate env opts w = (Inr (), w'))) \<and>
         (\<forall>w'. generate env opts w = (Inr (), w') \<longrightarrow>
            files \<noteq> [] \<and>
            length (newWrites w w') = length (validFiles env opts files) + 2 \<and>
            (\<exists>components indexCode doc.
               newWrites w w' =
                 components @
                 [(pathJoin env (outDir opts) ''index.ts'', indexCode),
                  (pathJoin env (outDir opts) ''metadata.json'', stringifyMetadata doc)] \<and>
               map fst components = map (componentPath env opts) (validFiles env opts files) \<and>
               icons doc = map (entryOf env opts) (validFiles env opts files) \<and>
               count doc = length (icons doc) \<and>
               length (icons doc) = length components))"
proof (intro conjI impI allI)
  assume "mkdir env (outDir opts) = None \<and> files \<noteq> [] \<and>
          (\<forall>rel \<in> set files. \<exists>c. readFile env (pathJoin env (srcDir opts) rel) = Inr c) \<and>
          (\<forall>s. \<exists>r. optimize env s = Inr r) \<and>
          (\<forall>s. \<exists>r. transform env s = Inr r) \<and>
          (\<forall>s. \<exists>r. prettierFormat env s = Inr r) \<and>
          (\<forall>p c. writeFile env p c = None)"
  with assms show "\<exists>w'. generate env opts w = (Inr (), w')"
    using generate_succeeds [of env opts files w] by blast
next
  fix w' assume gen: "generate env opts w = (Inr (), w')"
  from generate_ok [OF gen assms] show "files \<noteq> []" by blast
next
  fix w' assume gen: "generate env opts w = (Inr (), w')"
  from generate_ok [OF gen assms] obtain components indexCode where
    nw: "newWrites w w' =
              components @
              [(pathJoin env (outDir opts) ''index.ts'', indexCode),
               (pathJoin env (outDir opts) ''metadata.json'',
                stringifyMetadata
                  \<lparr>count = length (validFiles env opts files),
                   icons = map (entryOf env opts) (validFiles env opts files)\<rparr>)]"
    and comps: "map fst components = map (componentPath env opts) (validFiles env opts files)"
    by blast
  from comps have "length components = length (validFiles env opts files)"
    by (metis length_map)
  with nw show "length (newWrites w w') = length (validFiles env opts files) + 2"
    by simp
next
  fix w' assume gen: "generate env opts w = (Inr (), w')"
  from generate_ok [OF gen assms] obtain components indexCode where
    nw: "newWrites w w' =
              components @
              [(pathJoin env (outDir opts) ''index.ts'', indexCode),
               (pathJoin env (outDir opts) ''metadata.json'',
                stringifyMetadata
                  \<lparr>count = length (validFiles env opts files),
                   icons = map (entryOf env opts) (validFiles env opts files)\<rparr>)]"
    and comps: "map fst components = map (componentPath env opts) (validFiles env opts files)"
    by blast
  from comps have len: "length components = length (validFiles env opts files)"
    by (metis length_map)
  let ?doc = "\<lparr>count = length (validFiles env opts files),
               icons = map (entryOf env opts) (validFiles env opts files)\<rparr>"
  have "newWrites w w' =
          components @
          [(pathJoin env (outDir opts) ''index.ts'', indexCode),
           (pathJoin env (outDir opts) ''metadata.json'', stringifyMetadata ?doc)] \<and>
        map fst components = map (componentPath env opts) (validFiles env opts files) \<and>
        icons ?doc = map (entryOf env opts) (validFiles env opts files) \<and>
        count ?doc = length (icons ?doc) \<and>
        length (icons ?doc) = length components"
    using nw comps len by simp
  then show "\<exists>components indexCode doc.
               newWrites w w' =
                 components @
                 [(pathJoin env (outDir opts) ''index.ts'', indexCode),
                  (pathJoin env (outDir opts) ''metadata.json'', stringifyMetadata doc)] \<and>
               map fst components = map (componentPath env opts) (validFiles env opts files) \<and>
               icons doc = map (entryOf env opts) (validFiles env opts files) \<and>
               count doc = length (icons doc) \<and>
               length (icons doc) = length components"
    by blast
qed


theorem artifact_count_witness:
  "(\<exists>w'. generate (sampleEnv sampleSources) sampleOpts emptyWorld = (Inr (), w')) \<and>
   length (newWrites emptyWorld (snd (generate (sampleEnv sampleSources) sampleOpts emptyWorld))) =
     length [''arrow-left.svg'', ''sub/a--b.svg''] + 2"
proof -
  let ?env = "sampleEnv sampleSources"
  have glob: "globby ?env (srcDir sampleOpts) = Inr (map fst sampleSources)"
    by (simp add: sampleEnv_def)
  have ok: "mkdir ?env (outDir sampleOpts) = None \<and> map fst sampleSources \<noteq> [] \<and>
          (\<forall>rel \<in> set (map fst sampleSources).
             \<exists>c. readFile ?env (pathJoin ?env (srcDir sampleOpts) rel) = Inr c) \<and>
          (\<forall>s. \<exists>r. optimize ?env s = Inr r) \<and>
          (\<forall>s. \<exists>r. transform ?env s = Inr r) \<and>
          (\<forall>s. \<exists>r. prettierFormat ?env s = Inr r) \<and>
          (\<forall>p c. writeFile ?env p c = None)"
    by (simp add: sampleEnv_def sampleSources_def sampleOpts_def)
  from artifact_count [OF glob, of emptyWorld] ok
  obtain w' where run: "generate ?env sampleOpts emptyWorld = (Inr (), w')"
    by blast
  with artifact_count [OF glob, of emptyWorld]
  have "length (newWrites emptyWorld w') =
          length (validFiles ?env sampleOpts (map fst sampleSources)) + 2"
    by blast
  with run show ?thesis by (simp add: sample_valid_files)
qed


text \<open>
  C9. A second run with the same options and the same adapters, on a file system that
  enumerates the same files with the same contents, in whatever world it starts, ends as
  the first does and writes the same files with the same contents in the same order.
\<close>

theorem generate_deterministic:
  assumes "g2 (srcDir opts) = globby env (srcDir opts)"
    and "\<forall>files. globby env (srcDir opts) = Inr files \<longrightarrow>
           (\<forall>rel \<in> set files. r2 (pathJoin env (srcDir opts) rel) =
                                readFile env (pathJoin env (srcDir opts) rel))"
  shows "fst (generate (env\<lparr>globby := g2, readFile := r2\<rparr>) opts w2) =
           fst (generate env opts w1) \<and>
         newWrites w2 (snd (generate (env\<lparr>globby := g2, readFile := r2\<rparr>) opts w2)) =
           newWrites w1 (snd (generate env opts w1))"
proof -
  have same: "generate (env\<lparr>globby := g2, readFile := r2\<rparr>) opts w2 = generate env opts w2"
    using assms by (rule generate_same_sources)
  have a: "generate env opts w2 =
     (fst (generate env opts emptyWorld), extend w2 (snd (generate env opts emptyWorld)))"
    by (rule generate_from_empty)
  have b: "generate env opts w1 =
     (fst (generate env opts emptyWorld), extend w1 (snd (generate env opts emptyWorld)))"
    by (rule generate_from_empty)
  show ?thesis
    unfolding same by (simp add: a b newWrites_extend)
qed


theorem generate_deterministic_witness:
  "newWrites (snd (generate (sampleEnv sampleSources) sampleOpts emptyWorld))
     (snd (generate
             ((sampleEnv sampleSources)
                \<lparr>globby := (\<lambda>cwd. Inr [''arrow-left.svg'', ''notes.svg'', ''sub/a--b.svg'']),
                 readFile := readFile (sampleEnv (sampleSources @ [(''later.svg'', ''<svg/>'')]))\<rparr>)
             sampleOpts
             (snd (generate (sampleEnv sampleSources) sampleOpts emptyWorld)))) =
   newWrites emptyWorld (snd (generate (sampleEnv sampleSources) sampleOpts emptyWorld))"
proof -
  let ?env = "sampleEnv sampleSources"
  let ?g2 = "\<lambda>cwd :: string. (Inr [''arrow-left.svg'', ''notes.svg'', ''sub/a--b.svg''] :: error + string list)"
  let ?r2 = "readFile (sampleEnv (sampleSources @ [(''later.svg'', ''<svg/>'')]))"
  have a: "?g2 (srcDir sampleOpts) = globby ?env (srcDir sampleOpts)"
    by (simp add: sampleEnv_def sampleSources_def)
  have b: "\<forall>files. globby ?env (srcDir sampleOpts) = Inr files \<longrightarrow>
           (\<forall>rel \<in> set files. ?r2 (pathJoin ?env (srcDir sampleOpts) rel) =
                                readFile ?env (pathJoin ?env (srcDir sampleOpts) rel))"
    by (auto simp: sampleEnv_def sampleSources_def sampleOpts_def)
  from generate_deterministic [OF a b, of "snd (generate ?env sampleOpts emptyWorld)" emptyWorld]
  show ?thesis by blast
qed

end
